theory Spec2Isabelle
  imports Main
begin

section \<open>Session management of logging.email (backend/lib/services/session.py)\<close>

text \<open>
  The theory embeds the session manager of the backend: the risk scorer
  \<open>calculate_risk\<close>, the cache-backed lookup \<open>load_session\<close>, and the operations
  \<open>create_session\<close>, \<open>authenticate_request\<close>, \<open>refresh_access_token\<close>,
  \<open>revoke_session\<close> and \<open>revoke_all_sessions\<close>, together with the Redis helpers of
  backend/lib/utils/cache.py that they call.

  Conventions of the embedding.
  \<^item> Timestamps are integers (seconds); every operation takes the value of
    \<open>datetime.utcnow()\<close> as its argument \<open>now\<close> (one reading per call of the operation).
  \<^item> The random values of an operation (\<open>uuid.uuid4()\<close>, \<open>secrets.token_urlsafe(32)\<close>)
    are arguments of the operation.
  \<^item> SHA-256 and the user-agent parser are collaborators held in the record \<open>env\<close>,
    with the lifetimes read from the settings.
  \<^item> The relational tables are lists of rows; the ORM's unit of work is written out:
    a mutated row is stored by \<open>db_update\<close> at commit, an insert that violates a primary
    key or the unique index on \<open>token_hash\<close> raises \<open>IntegrityError\<close> and leaves the
    tables as they were. Column widths and foreign keys to the users table are not modelled.
  \<^item> Request data is a dictionary from keys to \<open>None\<close>, strings or integers; a test such
    as \<open>if request_data.get("ip")\<close> is Python's truth value (\<open>truthy\<close>).
  \<^item> Redis holds decoded JSON values with the instant their TTL runs out; what
    \<open>load_session\<close> returns is either a row of the store or such a JSON value.
  \<^item> A raised exception is the left injection of the result; the state after the call is
    always returned with it, since several failing paths commit before they raise.
\<close>

subsection \<open>Python values and request data\<close>

datatype pyval = PyNone | PyStr string | PyInt int

fun truthy :: "pyval \<Rightarrow> bool" where
  "truthy PyNone = False"
| "truthy (PyStr s) = (s \<noteq> [])"
| "truthy (PyInt n) = (n \<noteq> 0)"

type_synonym request_data = "string \<rightharpoonup> pyval"

text \<open>\<open>d.get(k)\<close> and \<open>d.get(k, default)\<close> of a Python dict.\<close>

definition get :: "request_data \<Rightarrow> string \<Rightarrow> pyval" where
  "get d k = (case d k of None \<Rightarrow> PyNone | Some v \<Rightarrow> v)"

definition get_default :: "request_data \<Rightarrow> string \<Rightarrow> pyval \<Rightarrow> pyval" where
  "get_default d k dflt = (case d k of None \<Rightarrow> dflt | Some v \<Rightarrow> v)"

datatype error = HTTP401 string | AttributeError | TypeError | IntegrityError

subsection \<open>Rows of the three tables (backend/models/models.py)\<close>

record session =
  s_id :: string
  user_id :: int
  created_at :: int
  last_seen_at :: int
  expires_at :: int
  revoked_at :: "int option"
  device_id :: pyval
  client_id :: pyval
  user_agent_hash :: pyval
  os_family :: pyval
  browser_family :: pyval
  last_ip :: pyval
  last_asn :: pyval
  last_country :: pyval
  risk_score :: int

record refresh_token =
  t_id :: string
  session_id :: string
  token_hash :: string
  t_expires_at :: int
  t_revoked_at :: "int option"
  replaced_by :: "string option"

record security_event =
  e_user_id :: int
  e_session_id :: "string option"
  event_type :: string
  ip_address :: pyval
  user_agent :: pyval
  details :: pyval
  e_created_at :: int

subsection \<open>Redis and the cache helpers (backend/lib/utils/cache.py)\<close>

datatype json = JNull | JBool bool | JNum int | JStr string
  | JArr "json list" | JObj "(string \<times> json) list"

fun json_truthy :: "json \<Rightarrow> bool" where
  "json_truthy JNull = False"
| "json_truthy (JBool b) = b"
| "json_truthy (JNum n) = (n \<noteq> 0)"
| "json_truthy (JStr s) = (s \<noteq> [])"
| "json_truthy (JArr xs) = (xs \<noteq> [])"
| "json_truthy (JObj kvs) = (kvs \<noteq> [])"

text \<open>
  A Redis entry is the JSON value its text decodes to, with the instant at which its TTL
  runs out. A key whose text is empty or is not JSON is a key without entry here:
  \<open>cache_get\<close> returns \<open>None\<close> for both.
\<close>

type_synonym redis = "string \<rightharpoonup> (json \<times> int)"

record state =
  sessions :: "session list"
  refresh_tokens :: "refresh_token list"
  security_events :: "security_event list"
  redis_client :: redis

record env =
  hash_token :: "string \<Rightarrow> string"
  ua_parse :: "string \<Rightarrow> (string option \<times> string option) option"
  session_absolute_limit :: int
  refresh_token_lifetime :: int
  redis_cache_ttl :: int

text \<open>What the callers hand to \<open>cache_set\<close>: a JSON-like dict, or an ORM object.\<close>

datatype cache_value = Dict json | Model session

text \<open>
  \<open>json.dumps\<close> has no encoder for an instance of a declarative model class
  (\<open>class Session(Base)\<close>): it raises \<open>TypeError\<close>.
\<close>

fun json_dumps :: "cache_value \<Rightarrow> error + json" where
  "json_dumps (Dict j) = Inr j"
| "json_dumps (Model s) = Inl TypeError"

definition cache_get :: "int \<Rightarrow> string \<Rightarrow> redis \<Rightarrow> json option" where
  "cache_get now key r =
     (case r key of
        None \<Rightarrow> None
      | Some (j, deadline) \<Rightarrow> if now < deadline then Some j else None)"

text \<open>
  \<open>cache_set\<close>: the arguments of \<open>setex\<close> are evaluated first, so an exception of
  \<open>json.dumps\<close> is swallowed by the \<open>except Exception: pass\<close> before anything is
  written; \<open>setex\<close> itself refuses a TTL that is not positive.
\<close>

definition cache_set :: "env \<Rightarrow> int \<Rightarrow> string \<Rightarrow> cache_value \<Rightarrow> int option \<Rightarrow> redis \<Rightarrow> redis" where
  "cache_set ev now key v ttl r =
     (let ttl' = (case ttl of None \<Rightarrow> redis_cache_ttl ev
                  | Some t \<Rightarrow> if t \<noteq> 0 then t else redis_cache_ttl ev)
      in case json_dumps v of
           Inl e \<Rightarrow> r
         | Inr j \<Rightarrow> if ttl' \<le> 0 then r else r(key \<mapsto> (j, now + ttl')))"

definition cache_delete :: "string \<Rightarrow> redis \<Rightarrow> redis" where
  "cache_delete key r = r(key := None)"

subsection \<open>Helpers of session.py\<close>

definition REAUTH_RISK :: int where
  "REAUTH_RISK = 70"

record ua_info =
  ua_os_family :: pyval
  ua_browser_family :: pyval
  ua_hash :: pyval

definition family_field :: "string option \<Rightarrow> pyval" where
  "family_field f = (case f of None \<Rightarrow> PyNone
                     | Some x \<Rightarrow> if x \<noteq> [] then PyStr (take 63 x) else PyNone)"

text \<open>
  \<open>parse_user_agent\<close>: \<open>hash_token\<close> calls \<open>ua_string.encode()\<close> in the \<open>try\<close> block
  and again in the bare \<open>except\<close> handler, so an argument that is not a string leaves the
  function with \<open>AttributeError\<close>. For a string, \<open>ua_parse\<close> is \<open>None\<close> when the parser
  raises (the handler then returns both families as \<open>None\<close>).
\<close>

definition parse_user_agent :: "env \<Rightarrow> pyval \<Rightarrow> error + ua_info" where
  "parse_user_agent ev ua_string =
     (case ua_string of
        PyStr s \<Rightarrow>
          (case ua_parse ev s of
             Some (osf, brf) \<Rightarrow>
               Inr \<lparr>ua_os_family = family_field osf, ua_browser_family = family_field brf,
                    ua_hash = PyStr (take 64 (hash_token ev s))\<rparr>
           | None \<Rightarrow>
               Inr \<lparr>ua_os_family = PyNone, ua_browser_family = PyNone,
                    ua_hash = PyStr (take 64 (hash_token ev s))\<rparr>)
      | _ \<Rightarrow> Inl AttributeError)"

text \<open>\<open>get_geo_info\<close> is a stub: \<open>{"asn": None, "country": None}\<close>, as (asn, country).\<close>

definition get_geo_info :: "pyval \<Rightarrow> pyval \<times> pyval" where
  "get_geo_info ip = (PyNone, PyNone)"

definition calculate_risk :: "session \<Rightarrow> request_data \<Rightarrow> int" where
  "calculate_risk session rd =
     (let risk = 0;
          risk = (if truthy (get rd ''device_id'') \<and> get rd ''device_id'' \<noteq> device_id session
                  then risk + 40 else risk);
          risk = (if truthy (get rd ''client_id'') \<and> get rd ''client_id'' \<noteq> client_id session
                  then risk + 30 else risk);
          risk = (if truthy (get rd ''user_agent_hash'')
                     \<and> get rd ''user_agent_hash'' \<noteq> user_agent_hash session
                  then (if get rd ''browser_family'' = browser_family session
                        then risk + 5 else risk + 20)
                  else risk);
          risk = (if truthy (get rd ''ip'') \<and> get rd ''ip'' \<noteq> last_ip session
                  then (if truthy (get rd ''asn'') \<and> get rd ''asn'' = last_asn session
                        then risk + 2
                        else if truthy (get rd ''country'')
                                \<and> get rd ''country'' = last_country session
                        then risk + 8
                        else risk + 25)
                  else risk)
      in risk)"

definition log_security_event ::
    "int \<Rightarrow> int \<Rightarrow> string option \<Rightarrow> string \<Rightarrow> request_data \<Rightarrow> state \<Rightarrow> state" where
  "log_security_event now uid sid etype rd st =
     st\<lparr>security_events := security_events st @
          [\<lparr>e_user_id = uid, e_session_id = sid, event_type = etype,
            ip_address = get rd ''ip'', user_agent = get rd ''user_agent'',
            details = get rd ''details'', e_created_at = now\<rparr>]\<rparr>"

definition cache_key_of :: "string \<Rightarrow> string" where
  "cache_key_of sid = ''session:'' @ sid"

definition cache_session :: "env \<Rightarrow> int \<Rightarrow> session \<Rightarrow> state \<Rightarrow> state" where
  "cache_session ev now session st =
     (let ttl = expires_at session - now
      in if ttl > 0
         then st\<lparr>redis_client :=
                   cache_set ev now (cache_key_of (s_id session)) (Model session) (Some ttl)
                     (redis_client st)\<rparr>
         else st)"

text \<open>The commit of a mutated ORM row: \<open>UPDATE ... WHERE id = ...\<close>.\<close>

definition db_update :: "session \<Rightarrow> session list \<Rightarrow> session list" where
  "db_update s rows = map (\<lambda>r. if s_id r = s_id s then s else r) rows"

text \<open>What \<open>load_session\<close> returns: \<open>None\<close>, a row of the store, or the decoded cache entry.\<close>

datatype loaded = Absent | Row session | Cached json

text \<open>\<open>db.query(SessionModel).filter(SessionModel.id == session_id).first()\<close>.\<close>

definition query_session :: "string \<Rightarrow> state \<Rightarrow> session option" where
  "query_session sid st = find (\<lambda>s. s_id s = sid) (sessions st)"

text \<open>
  \<open>load_session\<close>: \<open>if cached: return cached\<close> tests the truth value of the decoded
  entry; everything else goes on to the store (\<open>from_store\<close>).
\<close>

definition load_session :: "env \<Rightarrow> int \<Rightarrow> string \<Rightarrow> state \<Rightarrow> loaded \<times> state" where
  "load_session ev now sid st =
     (let cached = cache_get now (cache_key_of sid) (redis_client st);
          from_store =
            (case query_session sid st of
               None \<Rightarrow> (Absent, st)
             | Some session \<Rightarrow>
                 if revoked_at session = None \<and> expires_at session > now
                 then (Row session, cache_session ev now session st)
                 else (Row session, st))
      in case cached of
           Some j \<Rightarrow> if json_truthy j then (Cached j, st) else from_store
         | None \<Rightarrow> from_store)"

text \<open>
  \<open>revoke_session\<close>: the assignment to \<open>session.revoked_at\<close>, the bulk update of the
  session's tokens whose \<open>revoked_at\<close> is \<open>NULL\<close>, the commit and the cache eviction. The
  body does not read its \<open>reason\<close> argument and writes no security event.
\<close>

definition revoke_session :: "int \<Rightarrow> session \<Rightarrow> state \<Rightarrow> state" where
  "revoke_session now session st =
     (let session' = session\<lparr>revoked_at := Some now\<rparr>
      in st\<lparr>sessions := db_update session' (sessions st),
            refresh_tokens :=
              map (\<lambda>t. if session_id t = s_id session \<and> t_revoked_at t = None
                        then t\<lparr>t_revoked_at := Some now\<rparr> else t)
                  (refresh_tokens st),
            redis_client := cache_delete (cache_key_of (s_id session)) (redis_client st)\<rparr>)"

text \<open>
  The block under \<open># Update session context\<close> / \<open>if request_data.get("ip")\<close>, which
  \<open>authenticate_request\<close> and \<open>refresh_access_token\<close> both carry verbatim.
\<close>

definition update_session_context :: "request_data \<Rightarrow> session \<Rightarrow> session" where
  "update_session_context rd session =
     (if truthy (get rd ''ip'')
      then session\<lparr>last_ip := get rd ''ip'',
                   last_asn := fst (get_geo_info (get rd ''ip'')),
                   last_country := snd (get_geo_info (get rd ''ip''))\<rparr>
      else session)"

text \<open>
  \<open>authenticate_request\<close>. A cache hit hands a decoded JSON value to the attribute
  access \<open>session.revoked_at\<close>, which raises \<open>AttributeError\<close>. The risk and
  \<open>last_seen_at\<close> are written to the row before the threshold test; the commit inside
  \<open>revoke_session\<close> stores them with the revocation.
\<close>

definition authenticate_request ::
    "env \<Rightarrow> int \<Rightarrow> string \<Rightarrow> request_data \<Rightarrow> state \<Rightarrow> (error + session) \<times> state" where
  "authenticate_request ev now sid rd st =
     (case load_session ev now sid st of
        (Absent, st1) \<Rightarrow> (Inl (HTTP401 ''Session invalid''), st1)
      | (Cached j, st1) \<Rightarrow> (Inl AttributeError, st1)
      | (Row session, st1) \<Rightarrow>
          if revoked_at session \<noteq> None then (Inl (HTTP401 ''Session invalid''), st1)
          else if expires_at session < now then (Inl (HTTP401 ''Session expired''), st1)
          else
            let risk = calculate_risk session rd;
                session1 = session\<lparr>risk_score := risk_score session + risk,
                                   last_seen_at := now\<rparr>
            in if risk_score session1 \<ge> REAUTH_RISK
               then (Inl (HTTP401 ''Reauthentication required''),
                     log_security_event now (user_id session1) (Some (s_id session1))
                       ''session_revoked_risk'' rd
                       (revoke_session now session1 st1))
               else
                 let session2 = update_session_context rd session1;
                     st2 = st1\<lparr>sessions := db_update session2 (sessions st1)\<rparr>
                 in (Inr session2, cache_session ev now session2 st2))"

text \<open>The primary key and the unique index of the refresh_tokens table.\<close>

definition token_insertable :: "refresh_token \<Rightarrow> state \<Rightarrow> bool" where
  "token_insertable t st =
     (t_id t \<notin> set (map t_id (refresh_tokens st))
      \<and> token_hash t \<notin> set (map token_hash (refresh_tokens st)))"

text \<open>
  \<open>refresh_access_token\<close>; \<open>new_tid\<close> and \<open>new_secret\<close> are the values drawn for the
  successor token. The session is tested for revocation only, not for expiry.
\<close>

definition refresh_access_token ::
    "env \<Rightarrow> int \<Rightarrow> string \<Rightarrow> string \<Rightarrow> string \<Rightarrow> request_data \<Rightarrow> state
      \<Rightarrow> (error + session \<times> string) \<times> state" where
  "refresh_access_token ev now new_tid new_secret refresh_token rd st =
     (case find (\<lambda>t. token_hash t = hash_token ev refresh_token) (refresh_tokens st) of
        None \<Rightarrow> (Inl (HTTP401 ''Invalid refresh token''), st)
      | Some token_record \<Rightarrow>
          (case load_session ev now (session_id token_record) st of
             (Absent, st1) \<Rightarrow> (Inl (HTTP401 ''Session invalid''), st1)
           | (Cached j, st1) \<Rightarrow> (Inl AttributeError, st1)
           | (Row session, st1) \<Rightarrow>
               if revoked_at session \<noteq> None then (Inl (HTTP401 ''Session invalid''), st1)
               else if t_revoked_at token_record \<noteq> None
               then (Inl (HTTP401 ''Refresh token reuse detected''),
                     log_security_event now (user_id session) (Some (s_id session))
                       ''token_reuse_detected'' rd
                       (revoke_session now session st1))
               else if t_expires_at token_record < now
               then (Inl (HTTP401 ''Refresh token expired''), st1)
               else
                 let risk = calculate_risk session rd
                 in if risk \<ge> REAUTH_RISK
                    then (Inl (HTTP401 ''Suspicious activity detected''),
                          log_security_event now (user_id session) (Some (s_id session))
                            ''session_revoked_suspicious'' rd
                            (revoke_session now session st1))
                    else
                      let new_token_record =
                            \<lparr>t_id = new_tid, session_id = s_id session,
                             token_hash = hash_token ev new_secret,
                             t_expires_at = now + refresh_token_lifetime ev,
                             t_revoked_at = None, replaced_by = None\<rparr>;
                          session1 = session\<lparr>last_seen_at := now,
                                             risk_score := risk_score session + risk\<rparr>;
                          session2 = update_session_context rd session1
                      in if \<not> token_insertable new_token_record st1
                         then (Inl IntegrityError, st1)
                         else
                           let st2 = st1\<lparr>sessions := db_update session2 (sessions st1),
                                         refresh_tokens :=
                                           map (\<lambda>t. if t_id t = t_id token_record
                                                     then t\<lparr>t_revoked_at := Some now,
                                                            replaced_by := Some new_tid\<rparr>
                                                     else t)
                                               (refresh_tokens st1) @ [new_token_record]\<rparr>
                           in (Inr (session2, new_secret), cache_session ev now session2 st2)))"

text \<open>
  \<open>create_session\<close>; \<open>new_sid\<close>, \<open>new_tid\<close> and \<open>new_secret\<close> are the values drawn for the
  session id, the token id and the token secret. The first commit is the one inside
  \<open>log_security_event\<close>, which flushes the session, the token and the event together.
\<close>

definition create_session ::
    "env \<Rightarrow> int \<Rightarrow> string \<Rightarrow> string \<Rightarrow> string \<Rightarrow> int \<Rightarrow> request_data \<Rightarrow> state
      \<Rightarrow> (error + session \<times> string) \<times> state" where
  "create_session ev now new_sid new_tid new_secret uid rd st =
     (case parse_user_agent ev (get_default rd ''user_agent'' (PyStr [])) of
        Inl e \<Rightarrow> (Inl e, st)
      | Inr ua \<Rightarrow>
          let geo_info = get_geo_info (get_default rd ''ip'' (PyStr []));
              session =
                \<lparr>s_id = new_sid, user_id = uid, created_at = now, last_seen_at = now,
                 expires_at = now + session_absolute_limit ev, revoked_at = None,
                 device_id = get rd ''device_id'',
                 client_id = get_default rd ''client_id'' (PyStr ''web''),
                 user_agent_hash = ua_hash ua, os_family = ua_os_family ua,
                 browser_family = ua_browser_family ua,
                 last_ip = get rd ''ip'', last_asn = fst geo_info,
                 last_country = snd geo_info, risk_score = 0\<rparr>;
              refresh_token_record =
                \<lparr>t_id = new_tid, session_id = new_sid,
                 token_hash = hash_token ev new_secret,
                 t_expires_at = now + refresh_token_lifetime ev,
                 t_revoked_at = None, replaced_by = None\<rparr>
          in if new_sid \<in> set (map s_id (sessions st))
                \<or> \<not> token_insertable refresh_token_record st
             then (Inl IntegrityError, st)
             else
               let st1 = st\<lparr>sessions := sessions st @ [session],
                             refresh_tokens := refresh_tokens st @ [refresh_token_record]\<rparr>;
                   st2 = log_security_event now uid (Some new_sid) ''session_created'' rd st1
               in (Inr (session, new_secret), cache_session ev now session st2))"

text \<open>
  \<open>revoke_all_sessions\<close>: the unrevoked sessions of the user are read once, each is
  revoked in turn, then one \<open>logout_all\<close> event is written with empty request data.
\<close>

definition revoke_all_sessions :: "int \<Rightarrow> int \<Rightarrow> state \<Rightarrow> state" where
  "revoke_all_sessions now uid st =
     (let active = filter (\<lambda>s. user_id s = uid \<and> revoked_at s = None) (sessions st)
      in log_security_event now uid None ''logout_all'' Map.empty
           (fold (revoke_session now) active st))"

subsection \<open>Sequential runs of the operations\<close>

text \<open>The store before any call: three empty tables, and whatever Redis holds.\<close>

definition empty_state :: "redis \<Rightarrow> state" where
  "empty_state r = \<lparr>sessions = [], refresh_tokens = [], security_events = [], redis_client = r\<rparr>"

text \<open>
  A call of one of the operations, with its clock reading and its random draws.
  \<open>Revoke\<close> is the logout route of backend/routes/api.py: it loads the session and calls
  \<open>revoke_session\<close> on what it got; on a cache hit the attribute assignment raises and the
  route's bare \<open>except\<close> swallows it.
\<close>

datatype op =
    Create int string string string int request_data
  | Authenticate int string request_data
  | Refresh int string string string request_data
  | Revoke int string
  | RevokeAll int int
  | Load int string

fun step :: "env \<Rightarrow> op \<Rightarrow> state \<Rightarrow> state" where
  "step ev (Create now new_sid new_tid new_secret uid rd) st =
     snd (create_session ev now new_sid new_tid new_secret uid rd st)"
| "step ev (Authenticate now sid rd) st = snd (authenticate_request ev now sid rd st)"
| "step ev (Refresh now new_tid new_secret refresh_token rd) st =
     snd (refresh_access_token ev now new_tid new_secret refresh_token rd st)"
| "step ev (Revoke now sid) st =
     (case load_session ev now sid st of
        (Row session, st1) \<Rightarrow> revoke_session now session st1
      | (Absent, st1) \<Rightarrow> st1
      | (Cached j, st1) \<Rightarrow> st1)"
| "step ev (RevokeAll now uid) st = revoke_all_sessions now uid st"
| "step ev (Load now sid) st = snd (load_session ev now sid st)"

definition run :: "env \<Rightarrow> op list \<Rightarrow> state \<Rightarrow> state" where
  "run ev ops st = fold (step ev) ops st"

subsection \<open>The two phases of a refresh\<close>

text \<open>
  Each request is served through an ORM session of its own, so the objects a call has
  queried stay as they were read until that call commits. \<open>refresh_read\<close> is the two
  queries of \<open>refresh_access_token\<close> (the token by its hash, the owning session through
  \<open>load_session\<close>). \<open>refresh_write\<close> is the rest of the function, run on the objects read
  and against the store as it is when the call gets there: the tests are made on the
  objects read, and the commit writes the mutated token by its id (the \<open>UPDATE\<close> carries no
  condition on \<open>revoked_at\<close>), the mutated session row and the successor token.
  \<open>refresh_finish\<close> passes a failed lookup through.
\<close>

definition refresh_read ::
    "env \<Rightarrow> int \<Rightarrow> string \<Rightarrow> state \<Rightarrow> (error + refresh_token \<times> loaded) \<times> state" where
  "refresh_read ev now refresh_token st =
     (case find (\<lambda>t. token_hash t = hash_token ev refresh_token) (refresh_tokens st) of
        None \<Rightarrow> (Inl (HTTP401 ''Invalid refresh token''), st)
      | Some token_record \<Rightarrow>
          (case load_session ev now (session_id token_record) st of
             (l, st1) \<Rightarrow> (Inr (token_record, l), st1)))"

definition refresh_write ::
    "env \<Rightarrow> int \<Rightarrow> string \<Rightarrow> string \<Rightarrow> request_data \<Rightarrow> refresh_token \<Rightarrow> loaded \<Rightarrow> state
      \<Rightarrow> (error + session \<times> string) \<times> state" where
  "refresh_write ev now new_tid new_secret rd token_record l st1 =
     (case l of
        Absent \<Rightarrow> (Inl (HTTP401 ''Session invalid''), st1)
      | Cached j \<Rightarrow> (Inl AttributeError, st1)
      | Row session \<Rightarrow>
          if revoked_at session \<noteq> None then (Inl (HTTP401 ''Session invalid''), st1)
          else if t_revoked_at token_record \<noteq> None
          then (Inl (HTTP401 ''Refresh token reuse detected''),
                log_security_event now (user_id session) (Some (s_id session))
                  ''token_reuse_detected'' rd
                  (revoke_session now session st1))
          else if t_expires_at token_record < now
          then (Inl (HTTP401 ''Refresh token expired''), st1)
          else
            let risk = calculate_risk session rd
            in if risk \<ge> REAUTH_RISK
               then (Inl (HTTP401 ''Suspicious activity detected''),
                     log_security_event now (user_id session) (Some (s_id session))
                       ''session_revoked_suspicious'' rd
                       (revoke_session now session st1))
               else
                 let new_token_record =
                       \<lparr>t_id = new_tid, session_id = s_id session,
                        token_hash = hash_token ev new_secret,
                        t_expires_at = now + refresh_token_lifetime ev,
                        t_revoked_at = None, replaced_by = None\<rparr>;
                     session1 = session\<lparr>last_seen_at := now,
                                        risk_score := risk_score session + risk\<rparr>;
                     session2 = update_session_context rd session1
                 in if \<not> token_insertable new_token_record st1
                    then (Inl IntegrityError, st1)
                    else
                      let st2 = st1\<lparr>sessions := db_update session2 (sessions st1),
                                    refresh_tokens :=
                                      map (\<lambda>t. if t_id t = t_id token_record
                                                then t\<lparr>t_revoked_at := Some now,
                                                       replaced_by := Some new_tid\<rparr>
                                                else t)
                                          (refresh_tokens st1) @ [new_token_record]\<rparr>
                      in (Inr (session2, new_secret), cache_session ev now session2 st2))"

definition refresh_finish ::
    "env \<Rightarrow> int \<Rightarrow> string \<Rightarrow> string \<Rightarrow> request_data \<Rightarrow> error + refresh_token \<times> loaded
      \<Rightarrow> state \<Rightarrow> (error + session \<times> string) \<times> state" where
  "refresh_finish ev now new_tid new_secret rd r st =
     (case r of
        Inl e \<Rightarrow> (Inl e, st)
      | Inr (token_record, l) \<Rightarrow> refresh_write ev now new_tid new_secret rd token_record l st)"

text \<open>
  Two calls \<open>a\<close> and \<open>b\<close> presenting the same token, scheduled as read \<open>a\<close>, read \<open>b\<close>,
  write \<open>a\<close>, write \<open>b\<close>; the result is the outcome of each call and the final store.
\<close>

definition refresh_race ::
    "env \<Rightarrow> string \<Rightarrow> int \<Rightarrow> string \<Rightarrow> string \<Rightarrow> request_data
      \<Rightarrow> int \<Rightarrow> string \<Rightarrow> string \<Rightarrow> request_data \<Rightarrow> state
      \<Rightarrow> (error + session \<times> string) \<times> (error + session \<times> string) \<times> state" where
  "refresh_race ev refresh_token now_a tid_a secret_a rd_a now_b tid_b secret_b rd_b st =
     (case refresh_read ev now_a refresh_token st of
        (read_a, st1) \<Rightarrow>
          (case refresh_read ev now_b refresh_token st1 of
             (read_b, st2) \<Rightarrow>
               (case refresh_finish ev now_a tid_a secret_a rd_a read_a st2 of
                  (res_a, st3) \<Rightarrow>
                    (case refresh_finish ev now_b tid_b secret_b rd_b read_b st3 of
                       (res_b, st4) \<Rightarrow> (res_a, res_b, st4)))))"

subsection \<open>Views of the tables used in the statements and proofs\<close>

text \<open>The unrevoked tokens of a session, and those of them not expired at \<open>now\<close>.\<close>

definition live_tokens :: "string \<Rightarrow> state \<Rightarrow> refresh_token list" where
  "live_tokens sid st =
     filter (\<lambda>t. session_id t = sid \<and> t_revoked_at t = None) (refresh_tokens st)"

definition usable_tokens :: "int \<Rightarrow> string \<Rightarrow> state \<Rightarrow> refresh_token list" where
  "usable_tokens now sid st =
     filter (\<lambda>t. session_id t = sid \<and> t_revoked_at t = None \<and> \<not> t_expires_at t < now)
       (refresh_tokens st)"

text \<open>
  The token invariant of a run: per session at most one unrevoked token, and every token
  refers to a stored session (the foreign key of \<open>refresh_tokens.session_id\<close>).
\<close>

definition tok_inv :: "state \<Rightarrow> bool" where
  "tok_inv st =
     ((\<forall>sid. length (live_tokens sid st) \<le> 1)
      \<and> session_id ` set (refresh_tokens st) \<subseteq> s_id ` set (sessions st))"

text \<open>Relations on the sessions table used to follow \<open>risk_score\<close> through a run.\<close>

definition rows_le :: "session list \<Rightarrow> session list \<Rightarrow> bool" where
  "rows_le rows rows' =
     (\<forall>sid s. find (\<lambda>r. s_id r = sid) rows = Some s \<longrightarrow>
        (\<exists>s'. find (\<lambda>r. s_id r = sid) rows' = Some s' \<and> risk_score s \<le> risk_score s'))"

definition risk_key :: "session \<Rightarrow> string \<times> int" where
  "risk_key r = (s_id r, risk_score r)"

definition touched :: "session list \<Rightarrow> session list \<Rightarrow> bool" where
  "touched rows rows' =
     (rows' = rows \<or>
      (\<exists>s s'. find (\<lambda>r. s_id r = s_id s') rows = Some s \<and> risk_score s \<le> risk_score s'
              \<and> rows' = db_update s' rows))"

subsection \<open>A running example\<close>

text \<open>
  One user logs in at time 0 from device \<open>dA\<close> with the web client. In the example
  environment \<open>hash_token\<close> is an injective stand-in for SHA-256 (it prefixes \<open>#\<close>), the
  user-agent parser finds no family, and the lifetimes are the defaults of config.py
  (90 and 30 days, in seconds). \<open>ex_state\<close> is the store after that login;
  \<open>ex_state_rotated\<close> after a refresh at time 10; \<open>ex_state_torn\<close> after a replay of the
  rotated token at time 20; \<open>ex_state_raced\<close> after two interleaved refreshes of the
  first token at time 10; \<open>ex_state40\<close> is \<open>ex_state\<close> with a stored score of 40;
  \<open>ex_state_cached\<close> is \<open>ex_state\<close> with a JSON entry under the session's cache key.
\<close>

definition ex_env :: env where
  "ex_env = \<lparr>hash_token = (\<lambda>s. CHR ''#'' # s), ua_parse = (\<lambda>s. None),
             session_absolute_limit = 7776000, refresh_token_lifetime = 2592000,
             redis_cache_ttl = 300\<rparr>"

definition ex_rd :: request_data where
  "ex_rd = map_of [(''ip'', PyStr ''1.1.1.1''), (''user_agent'', PyStr ''UA''),
                   (''device_id'', PyStr ''dA''), (''client_id'', PyStr ''web'')]"

definition ex_session :: session where
  "ex_session = \<lparr>s_id = ''s1'', user_id = 1, created_at = 0, last_seen_at = 0,
     expires_at = 7776000, revoked_at = None, device_id = PyStr ''dA'',
     client_id = PyStr ''web'', user_agent_hash = PyStr ''#UA'', os_family = PyNone,
     browser_family = PyNone, last_ip = PyStr ''1.1.1.1'', last_asn = PyNone,
     last_country = PyNone, risk_score = 0\<rparr>"

definition ex_token :: refresh_token where
  "ex_token = \<lparr>t_id = ''t1'', session_id = ''s1'', token_hash = ''#r1'',
     t_expires_at = 2592000, t_revoked_at = None, replaced_by = None\<rparr>"

definition ex_state :: state where
  "ex_state = \<lparr>sessions = [ex_session], refresh_tokens = [ex_token],
     security_events =
       [\<lparr>e_user_id = 1, e_session_id = Some ''s1'', event_type = ''session_created'',
         ip_address = PyStr ''1.1.1.1'', user_agent = PyStr ''UA'', details = PyNone,
         e_created_at = 0\<rparr>],
     redis_client = Map.empty\<rparr>"

definition ex_rd_stolen :: request_data where
  "ex_rd_stolen = map_of [(''ip'', PyStr ''9.9.9.9''), (''device_id'', PyStr ''dB''),
                          (''client_id'', PyStr ''cli'')]"

definition ex_rd_newdev :: request_data where
  "ex_rd_newdev = map_of [(''ip'', PyStr ''1.1.1.1''), (''device_id'', PyStr ''dB''),
                          (''client_id'', PyStr ''web'')]"

definition ex_rd_client :: request_data where
  "ex_rd_client = map_of [(''ip'', PyStr ''1.1.1.1''), (''device_id'', PyStr ''dA''),
                          (''client_id'', PyStr ''cli'')]"

definition ex_state40 :: state where
  "ex_state40 = ex_state\<lparr>sessions := [ex_session\<lparr>risk_score := 40\<rparr>]\<rparr>"

definition ex_state_rotated :: state where
  "ex_state_rotated =
     \<lparr>sessions = [ex_session\<lparr>last_seen_at := 10\<rparr>],
      refresh_tokens =
        [ex_token\<lparr>t_revoked_at := Some 10, replaced_by := Some ''t2''\<rparr>,
         \<lparr>t_id = ''t2'', session_id = ''s1'', token_hash = ''#r2'', t_expires_at = 2592010,
          t_revoked_at = None, replaced_by = None\<rparr>],
      security_events = security_events ex_state,
      redis_client = Map.empty\<rparr>"

definition ex_state_torn :: state where
  "ex_state_torn =
     \<lparr>sessions = [ex_session\<lparr>last_seen_at := 10, revoked_at := Some 20\<rparr>],
      refresh_tokens =
        [ex_token\<lparr>t_revoked_at := Some 10, replaced_by := Some ''t2''\<rparr>,
         \<lparr>t_id = ''t2'', session_id = ''s1'', token_hash = ''#r2'', t_expires_at = 2592010,
          t_revoked_at = Some 20, replaced_by = None\<rparr>],
      security_events = security_events ex_state @
        [\<lparr>e_user_id = 1, e_session_id = Some ''s1'', event_type = ''token_reuse_detected'',
          ip_address = PyStr ''1.1.1.1'', user_agent = PyStr ''UA'', details = PyNone,
          e_created_at = 20\<rparr>],
      redis_client = Map.empty\<rparr>"

definition ex_state_cached :: state where
  "ex_state_cached =
     ex_state\<lparr>redis_client := [cache_key_of ''s1'' \<mapsto> (JObj [(''id'', JStr ''s1'')], 300)]\<rparr>"

definition ex_state_raced :: state where
  "ex_state_raced =
     \<lparr>sessions = [ex_session\<lparr>last_seen_at := 10\<rparr>],
      refresh_tokens =
        [ex_token\<lparr>t_revoked_at := Some 10, replaced_by := Some ''t3''\<rparr>,
         \<lparr>t_id = ''t2'', session_id = ''s1'', token_hash = ''#r2'', t_expires_at = 2592010,
          t_revoked_at = None, replaced_by = None\<rparr>,
         \<lparr>t_id = ''t3'', session_id = ''s1'', token_hash = ''#r3'', t_expires_at = 2592010,
          t_revoked_at = None, replaced_by = None\<rparr>],
      security_events = security_events ex_state,
      redis_client = Map.empty\<rparr>"

section \<open>Properties\<close>

subsection \<open>Basic facts\<close>

lemma cache_session_noop: "cache_session ev now s st = st"
  by (simp add: cache_session_def cache_set_def Let_def)

lemma load_session_cases:
  assumes "load_session ev now sid st = (l, st')"
  shows "st' = st \<and>
         (case l of
            Absent \<Rightarrow> query_session sid st = None
          | Row s \<Rightarrow> query_session sid st = Some s
          | Cached j \<Rightarrow> cache_get now (cache_key_of sid) (redis_client st) = Some j
                        \<and> json_truthy j)"
  using assms
  by (auto simp: load_session_def Let_def cache_session_noop
      split: option.splits if_splits)

lemma load_session_miss:
  assumes "redis_client st (cache_key_of sid) = None"
  shows "load_session ev now sid st =
           ((case query_session sid st of None \<Rightarrow> Absent | Some s \<Rightarrow> Row s), st)"
  using assms
  by (simp add: load_session_def cache_get_def Let_def cache_session_noop split: option.splits)

lemma calculate_risk_sum:
  "calculate_risk s rd =
       (if truthy (get rd ''device_id'') \<and> get rd ''device_id'' \<noteq> device_id s then 40 else 0)
     + (if truthy (get rd ''client_id'') \<and> get rd ''client_id'' \<noteq> client_id s then 30 else 0)
     + (if truthy (get rd ''user_agent_hash'') \<and> get rd ''user_agent_hash'' \<noteq> user_agent_hash s
        then (if get rd ''browser_family'' = browser_family s then 5 else 20) else 0)
     + (if truthy (get rd ''ip'') \<and> get rd ''ip'' \<noteq> last_ip s
        then (if truthy (get rd ''asn'') \<and> get rd ''asn'' = last_asn s then 2
              else if truthy (get rd ''country'') \<and> get rd ''country'' = last_country s then 8
              else 25)
        else 0)"
proof -
  define d where "d = (truthy (get rd ''device_id'') \<and> get rd ''device_id'' \<noteq> device_id s)"
  define c where "c = (truthy (get rd ''client_id'') \<and> get rd ''client_id'' \<noteq> client_id s)"
  define u where "u = (truthy (get rd ''user_agent_hash'')
                        \<and> get rd ''user_agent_hash'' \<noteq> user_agent_hash s)"
  define b where "b = (get rd ''browser_family'' = browser_family s)"
  define i where "i = (truthy (get rd ''ip'') \<and> get rd ''ip'' \<noteq> last_ip s)"
  define a where "a = (truthy (get rd ''asn'') \<and> get rd ''asn'' = last_asn s)"
  define k where "k = (truthy (get rd ''country'') \<and> get rd ''country'' = last_country s)"
  show ?thesis
    unfolding calculate_risk_def Let_def d_def[symmetric] c_def[symmetric] u_def[symmetric]
      b_def[symmetric] i_def[symmetric] a_def[symmetric] k_def[symmetric]
    by (cases d; cases c; cases u; cases b; cases i; cases a; cases k; simp)
qed

lemma calculate_risk_nonneg: "0 \<le> calculate_risk s rd"
  unfolding calculate_risk_sum by (intro add_nonneg_nonneg) simp_all

lemma find_db_update:
  "find (\<lambda>r. s_id r = sid) rows = Some s \<Longrightarrow> s_id s' = sid \<Longrightarrow>
   find (\<lambda>r. s_id r = sid) (db_update s' rows) = Some s'"
  by (induction rows) (auto simp: db_update_def)

lemma find_db_update_other:
  "s_id s' \<noteq> sid \<Longrightarrow>
   find (\<lambda>r. s_id r = sid) (db_update s' rows) = find (\<lambda>r. s_id r = sid) rows"
  by (induction rows) (auto simp: db_update_def)

lemma query_session_id: "query_session sid st = Some s \<Longrightarrow> s_id s = sid"
  by (auto simp: query_session_def find_Some_iff)

lemma query_db_update:
  "query_session sid st = Some s \<Longrightarrow> s_id s' = sid \<Longrightarrow>
   query_session sid (st\<lparr>sessions := db_update s' (sessions st)\<rparr>) = Some s'"
  by (simp add: query_session_def find_db_update)

lemma sessions_log [simp]: "sessions (log_security_event now u sid e rd st) = sessions st"
  by (simp add: log_security_event_def)

lemma tokens_log [simp]:
  "refresh_tokens (log_security_event now u sid e rd st) = refresh_tokens st"
  by (simp add: log_security_event_def)

lemma redis_log [simp]: "redis_client (log_security_event now u sid e rd st) = redis_client st"
  by (simp add: log_security_event_def)

lemma events_log [simp]:
  "security_events (log_security_event now u sid e rd st) =
     security_events st @
       [\<lparr>e_user_id = u, e_session_id = sid, event_type = e, ip_address = get rd ''ip'',
         user_agent = get rd ''user_agent'', details = get rd ''details'', e_created_at = now\<rparr>]"
  by (simp add: log_security_event_def)

lemma query_log [simp]:
  "query_session sid (log_security_event now u x e rd st) = query_session sid st"
  by (simp add: query_session_def)

lemma sessions_revoke [simp]:
  "sessions (revoke_session now s st) = db_update (s\<lparr>revoked_at := Some now\<rparr>) (sessions st)"
  by (simp add: revoke_session_def Let_def)

lemma tokens_revoke [simp]:
  "refresh_tokens (revoke_session now s st) =
     map (\<lambda>t. if session_id t = s_id s \<and> t_revoked_at t = None
               then t\<lparr>t_revoked_at := Some now\<rparr> else t) (refresh_tokens st)"
  by (simp add: revoke_session_def Let_def)

lemma events_revoke [simp]: "security_events (revoke_session now s st) = security_events st"
  by (simp add: revoke_session_def Let_def)

lemma redis_revoke [simp]:
  "redis_client (revoke_session now s st) = (redis_client st)(cache_key_of (s_id s) := None)"
  by (simp add: revoke_session_def Let_def cache_delete_def)

lemma query_revoke:
  "query_session sid st = Some s \<Longrightarrow> s_id s0 = sid \<Longrightarrow>
   query_session sid (revoke_session now s0 st) = Some (s0\<lparr>revoked_at := Some now\<rparr>)"
  by (simp add: query_session_def find_db_update)

lemma authenticate_row:
  assumes "redis_client st (cache_key_of sid) = None"
      and "query_session sid st = Some s"
      and "revoked_at s = None" and "\<not> expires_at s < now"
  shows "authenticate_request ev now sid rd st =
     (let s1 = s\<lparr>risk_score := risk_score s + calculate_risk s rd, last_seen_at := now\<rparr>
      in if REAUTH_RISK \<le> risk_score s + calculate_risk s rd
         then (Inl (HTTP401 ''Reauthentication required''),
               log_security_event now (user_id s) (Some sid) ''session_revoked_risk'' rd
                 (revoke_session now s1 st))
         else
           let s2 = update_session_context rd s1
           in (Inr s2, st\<lparr>sessions := db_update s2 (sessions st)\<rparr>))"
  using assms query_session_id[OF assms(2)]
  by (simp add: authenticate_request_def load_session_miss Let_def cache_session_noop)

lemma load_session_snd: "load_session ev now sid st = (fst (load_session ev now sid st), st)"
  using load_session_cases [of ev now sid st] by (cases "load_session ev now sid st") simp

lemma load_session_Row:
  "fst (load_session ev now sid st) = Row s \<Longrightarrow> query_session sid st = Some s"
  using load_session_cases [of ev now sid st] by (cases "load_session ev now sid st") simp

lemma authenticate_unfold:
  "authenticate_request ev now sid rd st =
     (case fst (load_session ev now sid st) of
        Absent \<Rightarrow> (Inl (HTTP401 ''Session invalid''), st)
      | Cached j \<Rightarrow> (Inl AttributeError, st)
      | Row s \<Rightarrow>
          if revoked_at s \<noteq> None then (Inl (HTTP401 ''Session invalid''), st)
          else if expires_at s < now then (Inl (HTTP401 ''Session expired''), st)
          else if REAUTH_RISK \<le> risk_score s + calculate_risk s rd
          then (Inl (HTTP401 ''Reauthentication required''),
                log_security_event now (user_id s) (Some (s_id s)) ''session_revoked_risk'' rd
                  (revoke_session now
                     (s\<lparr>risk_score := risk_score s + calculate_risk s rd, last_seen_at := now\<rparr>)
                     st))
          else (Inr (update_session_context rd
                       (s\<lparr>risk_score := risk_score s + calculate_risk s rd,
                          last_seen_at := now\<rparr>)),
                st\<lparr>sessions :=
                     db_update (update_session_context rd
                                  (s\<lparr>risk_score := risk_score s + calculate_risk s rd,
                                     last_seen_at := now\<rparr>))
                       (sessions st)\<rparr>))"
  unfolding authenticate_request_def
  by (subst load_session_snd)
     (simp add: Let_def cache_session_noop split: loaded.splits)

lemma refresh_unfold:
  "refresh_access_token ev now new_tid new_secret refresh_token rd st =
     (case find (\<lambda>t. token_hash t = hash_token ev refresh_token) (refresh_tokens st) of
        None \<Rightarrow> (Inl (HTTP401 ''Invalid refresh token''), st)
      | Some tok \<Rightarrow>
          (case fst (load_session ev now (session_id tok) st) of
             Absent \<Rightarrow> (Inl (HTTP401 ''Session invalid''), st)
           | Cached j \<Rightarrow> (Inl AttributeError, st)
           | Row s \<Rightarrow>
               if revoked_at s \<noteq> None then (Inl (HTTP401 ''Session invalid''), st)
               else if t_revoked_at tok \<noteq> None
               then (Inl (HTTP401 ''Refresh token reuse detected''),
                     log_security_event now (user_id s) (Some (s_id s))
                       ''token_reuse_detected'' rd (revoke_session now s st))
               else if t_expires_at tok < now
               then (Inl (HTTP401 ''Refresh token expired''), st)
               else if REAUTH_RISK \<le> calculate_risk s rd
               then (Inl (HTTP401 ''Suspicious activity detected''),
                     log_security_event now (user_id s) (Some (s_id s))
                       ''session_revoked_suspicious'' rd (revoke_session now s st))
               else if \<not> token_insertable
                           \<lparr>t_id = new_tid, session_id = s_id s,
                            token_hash = hash_token ev new_secret,
                            t_expires_at = now + refresh_token_lifetime ev,
                            t_revoked_at = None, replaced_by = None\<rparr> st
               then (Inl IntegrityError, st)
               else (Inr (update_session_context rd
                            (s\<lparr>last_seen_at := now,
                               risk_score := risk_score s + calculate_risk s rd\<rparr>),
                          new_secret),
                     st\<lparr>sessions :=
                          db_update (update_session_context rd
                                       (s\<lparr>last_seen_at := now,
                                          risk_score := risk_score s + calculate_risk s rd\<rparr>))
                            (sessions st),
                        refresh_tokens :=
                          map (\<lambda>t. if t_id t = t_id tok
                                    then t\<lparr>t_revoked_at := Some now,
                                           replaced_by := Some new_tid\<rparr>
                                    else t)
                              (refresh_tokens st)
                          @ [\<lparr>t_id = new_tid, session_id = s_id s,
                              token_hash = hash_token ev new_secret,
                              t_expires_at = now + refresh_token_lifetime ev,
                              t_revoked_at = None, replaced_by = None\<rparr>]\<rparr>)))"
  unfolding refresh_access_token_def
  apply (cases "find (\<lambda>t. token_hash t = hash_token ev refresh_token) (refresh_tokens st)")
   apply simp
  apply (simp only: option.case)
  apply (subst load_session_snd)
  apply (simp add: Let_def cache_session_noop split: loaded.splits)
  done

lemma update_session_context_fields:
  "s_id (update_session_context rd s) = s_id s"
  "user_id (update_session_context rd s) = user_id s"
  "risk_score (update_session_context rd s) = risk_score s"
  "last_seen_at (update_session_context rd s) = last_seen_at s"
  "revoked_at (update_session_context rd s) = revoked_at s"
  "expires_at (update_session_context rd s) = expires_at s"
  "device_id (update_session_context rd s) = device_id s"
  "client_id (update_session_context rd s) = client_id s"
  "user_agent_hash (update_session_context rd s) = user_agent_hash s"
  "os_family (update_session_context rd s) = os_family s"
  "browser_family (update_session_context rd s) = browser_family s"
  by (simp_all add: update_session_context_def)

lemma update_session_context_network:
  "last_ip (update_session_context rd s) = (if truthy (get rd ''ip'') then get rd ''ip'' else last_ip s)"
  "last_asn (update_session_context rd s) = (if truthy (get rd ''ip'') then PyNone else last_asn s)"
  "last_country (update_session_context rd s)
     = (if truthy (get rd ''ip'') then PyNone else last_country s)"
  by (simp_all add: update_session_context_def get_geo_info_def)

lemma find_hash_map:
  assumes "\<And>t. token_hash (g t) = token_hash t"
  shows "find (\<lambda>t. token_hash t = h) (map g ts) = map_option g (find (\<lambda>t. token_hash t = h) ts)"
  by (induction ts) (simp_all add: assms)

lemma db_update_twice: "s_id a = s_id b \<Longrightarrow> db_update a (db_update b rows) = db_update a rows"
  by (induction rows) (auto simp: db_update_def)

subsection \<open>Facts about the running example\<close>

lemma ex_create:
  "create_session ex_env 0 ''s1'' ''t1'' ''r1'' 1 ex_rd (empty_state Map.empty)
     = (Inr (ex_session, ''r1''), ex_state)"
  by (simp add: create_session_def parse_user_agent_def get_default_def get_def ex_rd_def
      ex_env_def empty_state_def token_insertable_def get_geo_info_def log_security_event_def
      cache_session_noop ex_session_def ex_state_def ex_token_def Let_def)

lemma ex_risk: "calculate_risk ex_session ex_rd_stolen = 95"
  by (simp add: calculate_risk_def ex_session_def ex_rd_stolen_def get_def Let_def)

lemma ex_query: "query_session ''s1'' ex_state = Some ex_session"
  by (simp add: query_session_def ex_state_def ex_session_def)

lemma ex_find:
  "find (\<lambda>t. token_hash t = hash_token ex_env ''r1'') (refresh_tokens ex_state) = Some ex_token"
  by (simp add: ex_state_def ex_token_def ex_env_def)

lemma ex_miss: "redis_client ex_state k = None"
  by (simp add: ex_state_def)

lemma ex_session_fields:
  "s_id ex_session = ''s1''" "user_id ex_session = 1" "revoked_at ex_session = None"
  "expires_at ex_session = 7776000" "risk_score ex_session = 0"
  "device_id ex_session = PyStr ''dA''"
  by (simp_all add: ex_session_def)

lemma ex_token_fields:
  "t_id ex_token = ''t1''" "session_id ex_token = ''s1''" "t_revoked_at ex_token = None"
  "t_expires_at ex_token = 2592000" "token_hash ex_token = ''#r1''"
  by (simp_all add: ex_token_def)

lemma ex_load: "load_session ex_env now ''s1'' ex_state = (Row ex_session, ex_state)"
  by (simp add: load_session_miss ex_miss ex_query)

lemma ex_risk_newdev: "calculate_risk ex_session ex_rd_newdev = 40"
  by (simp add: calculate_risk_def ex_session_def ex_rd_newdev_def get_def Let_def)

lemma ex_risk_client: "calculate_risk (ex_session\<lparr>risk_score := 40\<rparr>) ex_rd_client = 30"
  by (simp add: calculate_risk_def ex_session_def ex_rd_client_def get_def Let_def)

lemma ex_risk_same: "calculate_risk ex_session ex_rd = 0"
  by (simp add: calculate_risk_def ex_session_def ex_rd_def get_def Let_def)

lemma ex_rotation:
  "refresh_access_token ex_env 10 ''t2'' ''r2'' ''r1'' ex_rd ex_state
     = (Inr (ex_session\<lparr>last_seen_at := 10\<rparr>, ''r2''), ex_state_rotated)"
proof -
  have ins: "token_insertable
               \<lparr>t_id = ''t2'', session_id = ''s1'', token_hash = hash_token ex_env ''r2'',
                t_expires_at = 10 + refresh_token_lifetime ex_env, t_revoked_at = None,
                replaced_by = None\<rparr> ex_state"
    by (simp add: token_insertable_def ex_state_def ex_token_def ex_env_def)
  show ?thesis
    by (simp add: refresh_unfold ex_find ex_load ex_token_fields ex_session_fields ex_risk_same
          REAUTH_RISK_def ins)
       (simp add: ex_state_def ex_state_rotated_def db_update_def ex_session_def ex_token_def
          update_session_context_def get_def ex_rd_def get_geo_info_def ex_env_def)
qed

lemma ex_rotated_find:
  "find (\<lambda>t. token_hash t = hash_token ex_env ''r1'') (refresh_tokens ex_state_rotated)
     = Some (ex_token\<lparr>t_revoked_at := Some 10, replaced_by := Some ''t2''\<rparr>)"
  by (simp add: ex_state_rotated_def ex_token_def ex_env_def)

lemma ex_rotated_load:
  "load_session ex_env now ''s1'' ex_state_rotated
     = (Row (ex_session\<lparr>last_seen_at := 10\<rparr>), ex_state_rotated)"
proof -
  have "redis_client ex_state_rotated (cache_key_of ''s1'') = None"
    by (simp add: ex_state_rotated_def)
  moreover have "query_session ''s1'' ex_state_rotated = Some (ex_session\<lparr>last_seen_at := 10\<rparr>)"
    by (simp add: query_session_def ex_state_rotated_def ex_session_def)
  ultimately show ?thesis by (simp add: load_session_miss)
qed

lemma ex_replay:
  "refresh_access_token ex_env 20 ''t3'' ''r3'' ''r1'' ex_rd ex_state_rotated
     = (Inl (HTTP401 ''Refresh token reuse detected''), ex_state_torn)"
  by (simp add: refresh_unfold ex_rotated_find ex_rotated_load ex_token_fields ex_session_fields)
     (simp add: log_security_event_def revoke_session_def ex_state_rotated_def ex_state_torn_def
        db_update_def ex_session_def ex_token_def cache_delete_def get_def ex_rd_def Let_def)

lemma ex_replay_again:
  "refresh_access_token ex_env 30 ''t4'' ''r4'' ''r1'' ex_rd ex_state_torn
     = (Inl (HTTP401 ''Session invalid''), ex_state_torn)"
proof -
  have f: "find (\<lambda>t. token_hash t = hash_token ex_env ''r1'') (refresh_tokens ex_state_torn)
     = Some (ex_token\<lparr>t_revoked_at := Some 10, replaced_by := Some ''t2''\<rparr>)"
    by (simp add: ex_state_torn_def ex_token_def ex_env_def)
  have "redis_client ex_state_torn (cache_key_of ''s1'') = None"
    by (simp add: ex_state_torn_def)
  moreover have "query_session ''s1'' ex_state_torn
                   = Some (ex_session\<lparr>last_seen_at := 10, revoked_at := Some 20\<rparr>)"
    by (simp add: query_session_def ex_state_torn_def ex_session_def)
  ultimately have l: "load_session ex_env 30 ''s1'' ex_state_torn
     = (Row (ex_session\<lparr>last_seen_at := 10, revoked_at := Some 20\<rparr>), ex_state_torn)"
    by (simp add: load_session_miss)
  show ?thesis
    by (simp add: refresh_unfold f l ex_token_fields)
qed

subsection \<open>The risk scorer\<close>

text \<open>
  Claim C5. \<open>calculate_risk\<close> is the sum of four independent terms, one per signal, with
  no cap: device id +40, client id +30, user-agent hash +5 when the browser family is
  unchanged and +20 otherwise, IP +2 on the same ASN, else +8 in the same country, else +25.
  A signal is present when the request carries a true value for it (and the IP is on the
  same ASN or country when the request carries that value and it equals the stored one);
  an absent signal adds 0. A request with a new device id, a new client id and a geo-jump IP
  scores 40+30+25 = 95, which reaches \<open>REAUTH_RISK\<close> = 70: \<open>authenticate_request\<close> on a
  valid session fails with "Reauthentication required" and leaves the session revoked.
\<close>

theorem risk_scorer_additive:
  "calculate_risk s rd =
       (if truthy (get rd ''device_id'') \<and> get rd ''device_id'' \<noteq> device_id s then 40 else 0)
     + (if truthy (get rd ''client_id'') \<and> get rd ''client_id'' \<noteq> client_id s then 30 else 0)
     + (if truthy (get rd ''user_agent_hash'') \<and> get rd ''user_agent_hash'' \<noteq> user_agent_hash s
        then (if get rd ''browser_family'' = browser_family s then 5 else 20) else 0)
     + (if truthy (get rd ''ip'') \<and> get rd ''ip'' \<noteq> last_ip s
        then (if truthy (get rd ''asn'') \<and> get rd ''asn'' = last_asn s then 2
              else if truthy (get rd ''country'') \<and> get rd ''country'' = last_country s then 8
              else 25)
        else 0)
   \<and> (\<not> truthy (get rd ''device_id'') \<and> \<not> truthy (get rd ''client_id'')
        \<and> \<not> truthy (get rd ''user_agent_hash'') \<and> \<not> truthy (get rd ''ip'')
      \<longrightarrow> calculate_risk s rd = 0)
   \<and> (truthy (get rd ''device_id'') \<and> get rd ''device_id'' \<noteq> device_id s
        \<and> truthy (get rd ''client_id'') \<and> get rd ''client_id'' \<noteq> client_id s
        \<and> \<not> (truthy (get rd ''user_agent_hash'')
               \<and> get rd ''user_agent_hash'' \<noteq> user_agent_hash s)
        \<and> truthy (get rd ''ip'') \<and> get rd ''ip'' \<noteq> last_ip s
        \<and> \<not> (truthy (get rd ''asn'') \<and> get rd ''asn'' = last_asn s)
        \<and> \<not> (truthy (get rd ''country'') \<and> get rd ''country'' = last_country s)
      \<longrightarrow> calculate_risk s rd = 40 + 30 + 25
          \<and> REAUTH_RISK \<le> calculate_risk s rd
          \<and> (redis_client st (cache_key_of sid) = None \<and> query_session sid st = Some s
                 \<and> revoked_at s = None \<and> \<not> expires_at s < now \<and> 0 \<le> risk_score s
               \<longrightarrow> fst (authenticate_request ev now sid rd st)
                      = Inl (HTTP401 ''Reauthentication required'')
                   \<and> query_session sid (snd (authenticate_request ev now sid rd st))
                      = Some (s\<lparr>risk_score := risk_score s + 95, last_seen_at := now,
                                 revoked_at := Some now\<rparr>)))"
proof (intro conjI impI)
  show "calculate_risk s rd =
       (if truthy (get rd ''device_id'') \<and> get rd ''device_id'' \<noteq> device_id s then 40 else 0)
     + (if truthy (get rd ''client_id'') \<and> get rd ''client_id'' \<noteq> client_id s then 30 else 0)
     + (if truthy (get rd ''user_agent_hash'') \<and> get rd ''user_agent_hash'' \<noteq> user_agent_hash s
        then (if get rd ''browser_family'' = browser_family s then 5 else 20) else 0)
     + (if truthy (get rd ''ip'') \<and> get rd ''ip'' \<noteq> last_ip s
        then (if truthy (get rd ''asn'') \<and> get rd ''asn'' = last_asn s then 2
              else if truthy (get rd ''country'') \<and> get rd ''country'' = last_country s then 8
              else 25)
        else 0)"
    by (rule calculate_risk_sum)
next
  assume "\<not> truthy (get rd ''device_id'') \<and> \<not> truthy (get rd ''client_id'')
        \<and> \<not> truthy (get rd ''user_agent_hash'') \<and> \<not> truthy (get rd ''ip'')"
  then show "calculate_risk s rd = 0"
    unfolding calculate_risk_sum by simp
next
  assume m: "truthy (get rd ''device_id'') \<and> get rd ''device_id'' \<noteq> device_id s
        \<and> truthy (get rd ''client_id'') \<and> get rd ''client_id'' \<noteq> client_id s
        \<and> \<not> (truthy (get rd ''user_agent_hash'')
               \<and> get rd ''user_agent_hash'' \<noteq> user_agent_hash s)
        \<and> truthy (get rd ''ip'') \<and> get rd ''ip'' \<noteq> last_ip s
        \<and> \<not> (truthy (get rd ''asn'') \<and> get rd ''asn'' = last_asn s)
        \<and> \<not> (truthy (get rd ''country'') \<and> get rd ''country'' = last_country s)"
  have r: "calculate_risk s rd = 95"
    unfolding calculate_risk_sum using m by simp
  show "calculate_risk s rd = 40 + 30 + 25" using r by simp
  show "REAUTH_RISK \<le> calculate_risk s rd" using r by (simp add: REAUTH_RISK_def)
  assume v: "redis_client st (cache_key_of sid) = None \<and> query_session sid st = Some s
                 \<and> revoked_at s = None \<and> \<not> expires_at s < now \<and> 0 \<le> risk_score s"
  have a: "authenticate_request ev now sid rd st =
      (Inl (HTTP401 ''Reauthentication required''),
       log_security_event now (user_id s) (Some sid) ''session_revoked_risk'' rd
         (revoke_session now (s\<lparr>risk_score := risk_score s + 95, last_seen_at := now\<rparr>) st))"
    using v r by (simp add: authenticate_row REAUTH_RISK_def Let_def)
  show "fst (authenticate_request ev now sid rd st) = Inl (HTTP401 ''Reauthentication required'')"
    by (simp add: a)
  have "s_id s = sid" using v query_session_id by blast
  then show "query_session sid (snd (authenticate_request ev now sid rd st))
                      = Some (s\<lparr>risk_score := risk_score s + 95, last_seen_at := now,
                                 revoked_at := Some now\<rparr>)"
    using v by (simp add: a query_revoke)
qed

theorem risk_scorer_additive_witness:
  "calculate_risk ex_session ex_rd_stolen = 40 + 30 + 25
   \<and> fst (authenticate_request ex_env 10 ''s1'' ex_rd_stolen ex_state)
       = Inl (HTTP401 ''Reauthentication required'')
   \<and> map_option revoked_at
         (query_session ''s1'' (snd (authenticate_request ex_env 10 ''s1'' ex_rd_stolen ex_state)))
       = Some (Some 10)"
  using risk_scorer_additive [of ex_session ex_rd_stolen ex_state "''s1''" 10 ex_env]
  by (simp add: ex_session_def ex_rd_stolen_def ex_state_def get_def query_session_def
      cache_key_of_def)

subsection \<open>What a risk revocation leaves in the session row\<close>

text \<open>
  Claim C10. When \<open>authenticate_request\<close> fails with "Reauthentication required", the
  session row stored by the revoking commit carries \<open>risk_score\<close> incremented by the delta
  that tipped it and \<open>last_seen_at\<close> set to the request time, next to \<open>revoked_at\<close>.
  When \<open>refresh_access_token\<close> takes its risk revocation ("Suspicious activity
  detected"), the stored row differs from the old one in \<open>revoked_at\<close> only: the delta is
  not added to \<open>risk_score\<close>.
\<close>

theorem reauth_failure_keeps_delta:
  "(authenticate_request ev now sid rd st = (Inl (HTTP401 ''Reauthentication required''), st')
      \<longrightarrow> (\<exists>s. query_session sid st = Some s
               \<and> REAUTH_RISK \<le> risk_score s + calculate_risk s rd
               \<and> query_session sid st'
                   = Some (s\<lparr>risk_score := risk_score s + calculate_risk s rd,
                             last_seen_at := now, revoked_at := Some now\<rparr>)))
   \<and> (refresh_access_token ev now new_tid new_secret refresh_token rd st
         = (Inl (HTTP401 ''Suspicious activity detected''), st'')
      \<longrightarrow> (\<exists>tok s. find (\<lambda>t. token_hash t = hash_token ev refresh_token) (refresh_tokens st)
                     = Some tok
               \<and> query_session (session_id tok) st = Some s
               \<and> REAUTH_RISK \<le> calculate_risk s rd
               \<and> query_session (session_id tok) st'' = Some (s\<lparr>revoked_at := Some now\<rparr>)))"
proof (intro conjI impI)
  assume a: "authenticate_request ev now sid rd st
               = (Inl (HTTP401 ''Reauthentication required''), st')"
  then obtain s where l: "fst (load_session ev now sid st) = Row s"
    by (cases "fst (load_session ev now sid st)") (simp_all add: authenticate_unfold)
  have q: "query_session sid st = Some s" using l by (rule load_session_Row)
  have i: "s_id s = sid" using q by (rule query_session_id)
  from a l have r: "REAUTH_RISK \<le> risk_score s + calculate_risk s rd"
    and e: "st' = log_security_event now (user_id s) (Some (s_id s)) ''session_revoked_risk'' rd
                  (revoke_session now
                     (s\<lparr>risk_score := risk_score s + calculate_risk s rd, last_seen_at := now\<rparr>)
                     st)"
    by (simp_all add: authenticate_unfold split: if_splits)
  have "query_session sid st'
          = Some (s\<lparr>risk_score := risk_score s + calculate_risk s rd,
                    last_seen_at := now, revoked_at := Some now\<rparr>)"
    unfolding e using q i by (simp add: query_revoke)
  with q r show "\<exists>s. query_session sid st = Some s
               \<and> REAUTH_RISK \<le> risk_score s + calculate_risk s rd
               \<and> query_session sid st'
                   = Some (s\<lparr>risk_score := risk_score s + calculate_risk s rd,
                             last_seen_at := now, revoked_at := Some now\<rparr>)"
    by blast
next
  assume a: "refresh_access_token ev now new_tid new_secret refresh_token rd st
         = (Inl (HTTP401 ''Suspicious activity detected''), st'')"
  then obtain tok where
    f: "find (\<lambda>t. token_hash t = hash_token ev refresh_token) (refresh_tokens st) = Some tok"
    by (cases "find (\<lambda>t. token_hash t = hash_token ev refresh_token) (refresh_tokens st)")
       (simp_all add: refresh_unfold)
  from a f obtain s where l: "fst (load_session ev now (session_id tok) st) = Row s"
    by (cases "fst (load_session ev now (session_id tok) st)") (simp_all add: refresh_unfold)
  have q: "query_session (session_id tok) st = Some s" using l by (rule load_session_Row)
  have i: "s_id s = session_id tok" using q by (rule query_session_id)
  from a f l have r: "REAUTH_RISK \<le> calculate_risk s rd"
    and e: "st'' = log_security_event now (user_id s) (Some (s_id s))
                     ''session_revoked_suspicious'' rd (revoke_session now s st)"
    by (simp_all add: refresh_unfold split: if_splits)
  have "query_session (session_id tok) st'' = Some (s\<lparr>revoked_at := Some now\<rparr>)"
    unfolding e using q i by (simp add: query_revoke)
  with f q r show "\<exists>tok s. find (\<lambda>t. token_hash t = hash_token ev refresh_token) (refresh_tokens st)
                     = Some tok
               \<and> query_session (session_id tok) st = Some s
               \<and> REAUTH_RISK \<le> calculate_risk s rd
               \<and> query_session (session_id tok) st'' = Some (s\<lparr>revoked_at := Some now\<rparr>)"
    by blast
qed

theorem reauth_failure_keeps_delta_witness:
  "map_option risk_score
     (query_session ''s1'' (snd (authenticate_request ex_env 10 ''s1'' ex_rd_stolen ex_state)))
     = Some 95
   \<and> map_option risk_score
       (query_session ''s1''
          (snd (refresh_access_token ex_env 10 ''t2'' ''r2'' ''r1'' ex_rd_stolen ex_state)))
     = Some 0"
proof -
  let ?A = "authenticate_request ex_env 10 ''s1'' ex_rd_stolen ex_state"
  let ?R = "refresh_access_token ex_env 10 ''t2'' ''r2'' ''r1'' ex_rd_stolen ex_state"
  have a: "?A = (Inl (HTTP401 ''Reauthentication required''), snd ?A)"
    by (simp add: authenticate_unfold ex_load ex_risk REAUTH_RISK_def ex_session_fields)
  have r: "?R = (Inl (HTTP401 ''Suspicious activity detected''), snd ?R)"
    by (simp add: refresh_unfold ex_find ex_load ex_risk REAUTH_RISK_def
        ex_session_fields ex_token_fields)
  have t: "find (\<lambda>t. token_hash t = hash_token ex_env ''r1'') (refresh_tokens ex_state)
             = Some ex_token" by (rule ex_find)
  show ?thesis
    using reauth_failure_keeps_delta
      [where ev = ex_env and now = 10 and sid = "''s1''" and rd = ex_rd_stolen
         and st = ex_state and st' = "snd ?A" and new_tid = "''t2''" and new_secret = "''r2''"
         and refresh_token = "''r1''" and st'' = "snd ?R"]
      a r
    by (auto simp: ex_query ex_find ex_risk ex_session_fields ex_token_fields)
qed

subsection \<open>What a successful authentication stores\<close>

text \<open>
  Claim C4, as amended. A successful \<open>authenticate_request\<close> stores the row it returns:
  \<open>risk_score\<close> incremented by the delta, \<open>last_seen_at\<close> set to the request time and,
  when the request carries an IP, \<open>last_ip\<close> set to it with \<open>last_asn\<close> and
  \<open>last_country\<close> set to what the geo stub returns (\<open>None\<close>). The device id, the client
  id, the user-agent hash and the OS and browser families keep the values of the session's
  creation, so a later call is scored against those.
\<close>

theorem authenticate_success_updates:
  assumes "authenticate_request ev now sid rd st = (Inr s', st')"
  shows "\<exists>s. query_session sid st = Some s \<and> query_session sid st' = Some s'
           \<and> risk_score s' = risk_score s + calculate_risk s rd
           \<and> last_seen_at s' = now
           \<and> device_id s' = device_id s \<and> client_id s' = client_id s
           \<and> user_agent_hash s' = user_agent_hash s
           \<and> os_family s' = os_family s \<and> browser_family s' = browser_family s
           \<and> (if truthy (get rd ''ip'')
               then last_ip s' = get rd ''ip'' \<and> last_asn s' = PyNone \<and> last_country s' = PyNone
               else last_ip s' = last_ip s \<and> last_asn s' = last_asn s
                    \<and> last_country s' = last_country s)"
proof -
  from assms obtain s where l: "fst (load_session ev now sid st) = Row s"
    by (cases "fst (load_session ev now sid st)") (simp_all add: authenticate_unfold)
  have q: "query_session sid st = Some s" using l by (rule load_session_Row)
  have i: "s_id s = sid" using q by (rule query_session_id)
  from assms l have
    e: "s' = update_session_context rd
               (s\<lparr>risk_score := risk_score s + calculate_risk s rd, last_seen_at := now\<rparr>)"
    and t: "st' = st\<lparr>sessions := db_update s' (sessions st)\<rparr>"
    by (auto simp: authenticate_unfold split: if_splits)
  have "s_id s' = sid" using i by (simp add: e update_session_context_fields)
  then have q': "query_session sid st' = Some s'"
    unfolding t using q by (simp add: query_db_update)
  show ?thesis
    using q q' by (auto simp: e update_session_context_fields update_session_context_network)
qed

theorem authenticate_success_updates_witness:
  "fst (authenticate_request ex_env 10 ''s1'' ex_rd_newdev ex_state)
     = Inr (ex_session\<lparr>risk_score := 40, last_seen_at := 10\<rparr>)
   \<and> map_option device_id
       (query_session ''s1'' (snd (authenticate_request ex_env 10 ''s1'' ex_rd_newdev ex_state)))
     = Some (PyStr ''dA'')"
proof -
  let ?A = "authenticate_request ex_env 10 ''s1'' ex_rd_newdev ex_state"
  have f: "fst ?A = Inr (ex_session\<lparr>risk_score := 40, last_seen_at := 10\<rparr>)"
    by (simp add: authenticate_unfold ex_load ex_risk_newdev REAUTH_RISK_def ex_session_fields)
       (simp add: update_session_context_def get_def ex_rd_newdev_def get_geo_info_def
          ex_session_def)
  then have a: "?A = (Inr (ex_session\<lparr>risk_score := 40, last_seen_at := 10\<rparr>), snd ?A)"
    by (simp add: prod_eq_iff)
  show ?thesis
    using authenticate_success_updates [OF a] f
    by (auto simp: ex_query ex_session_fields)
qed

text \<open>
  The claim as stated fails: a request with a new device id succeeds with delta 40 and
  leaves the stored device id as it was, so the same request repeated is scored 40 again
  and is rejected.
\<close>

theorem authenticate_fingerprint_counterexample:
  "get ex_rd_newdev ''device_id'' = PyStr ''dB''
   \<and> fst (authenticate_request ex_env 10 ''s1'' ex_rd_newdev ex_state)
       = Inr (ex_session\<lparr>risk_score := 40, last_seen_at := 10\<rparr>)
   \<and> device_id (ex_session\<lparr>risk_score := 40, last_seen_at := 10\<rparr>) = PyStr ''dA''
   \<and> fst (authenticate_request ex_env 20 ''s1'' ex_rd_newdev
            (snd (authenticate_request ex_env 10 ''s1'' ex_rd_newdev ex_state)))
       = Inl (HTTP401 ''Reauthentication required'')"
proof -
  let ?s = "ex_session\<lparr>risk_score := 40, last_seen_at := 10\<rparr>"
  let ?st = "ex_state\<lparr>sessions := [?s]\<rparr>"
  have u: "update_session_context ex_rd_newdev ?s = ?s"
    by (simp add: update_session_context_def get_def ex_rd_newdev_def get_geo_info_def
        ex_session_def)
  have a: "authenticate_request ex_env 10 ''s1'' ex_rd_newdev ex_state = (Inr ?s, ?st)"
    by (simp add: authenticate_unfold ex_load ex_risk_newdev REAUTH_RISK_def ex_session_fields u)
       (simp add: ex_state_def db_update_def ex_session_def)
  have q: "query_session ''s1'' ?st = Some ?s"
    by (simp add: query_session_def ex_session_def)
  have l: "load_session ex_env 20 ''s1'' ?st = (Row ?s, ?st)"
    by (simp add: load_session_miss ex_miss q)
  have r: "calculate_risk ?s ex_rd_newdev = 40"
    by (simp add: calculate_risk_def ex_session_def ex_rd_newdev_def get_def Let_def)
  have b: "fst (authenticate_request ex_env 20 ''s1'' ex_rd_newdev ?st)
             = Inl (HTTP401 ''Reauthentication required'')"
    by (simp add: authenticate_unfold l r REAUTH_RISK_def ex_session_fields)
  show ?thesis
    by (simp add: a b) (simp add: get_def ex_rd_newdev_def ex_session_def)
qed

subsection \<open>The risk test of the refresh\<close>

text \<open>
  Claim C2, as amended. For a refresh call that passes token lookup, session validity, reuse
  detection and token expiry, the risk revocation is taken exactly when the delta computed
  for this request alone is at least \<open>REAUTH_RISK\<close>; the stored \<open>risk_score\<close> plays no part
  in the test. In that case the session is revoked, a \<open>session_revoked_suspicious\<close> event is
  written and the call fails with "Suspicious activity detected". Otherwise the call
  rotates (or stops at a key collision of the successor).
\<close>

theorem refresh_risk_branch:
  assumes "find (\<lambda>t. token_hash t = hash_token ev refresh_token) (refresh_tokens st) = Some tok"
      and "fst (load_session ev now (session_id tok) st) = Row s"
      and "revoked_at s = None" and "t_revoked_at tok = None" and "\<not> t_expires_at tok < now"
  shows "(fst (refresh_access_token ev now new_tid new_secret refresh_token rd st)
            = Inl (HTTP401 ''Suspicious activity detected''))
         = (REAUTH_RISK \<le> calculate_risk s rd)
       \<and> (REAUTH_RISK \<le> calculate_risk s rd \<longrightarrow>
            snd (refresh_access_token ev now new_tid new_secret refresh_token rd st)
              = log_security_event now (user_id s) (Some (s_id s))
                  ''session_revoked_suspicious'' rd (revoke_session now s st)
            \<and> query_session (s_id s)
                 (snd (refresh_access_token ev now new_tid new_secret refresh_token rd st))
              = Some (s\<lparr>revoked_at := Some now\<rparr>))
       \<and> (\<not> REAUTH_RISK \<le> calculate_risk s rd \<longrightarrow>
            fst (refresh_access_token ev now new_tid new_secret refresh_token rd st)
              = Inr (update_session_context rd
                       (s\<lparr>last_seen_at := now,
                          risk_score := risk_score s + calculate_risk s rd\<rparr>), new_secret)
            \<or> fst (refresh_access_token ev now new_tid new_secret refresh_token rd st)
              = Inl IntegrityError)"
proof -
  have q: "query_session (session_id tok) st = Some s" using assms(2) by (rule load_session_Row)
  have i: "s_id s = session_id tok" using q by (rule query_session_id)
  have "query_session (s_id s) (revoke_session now s st) = Some (s\<lparr>revoked_at := Some now\<rparr>)"
    using q i by (simp add: query_revoke)
  then show ?thesis
    using assms by (simp add: refresh_unfold)
qed

theorem refresh_risk_branch_witness:
  "fst (refresh_access_token ex_env 10 ''t2'' ''r2'' ''r1'' ex_rd_stolen ex_state)
     = Inl (HTTP401 ''Suspicious activity detected'')
   \<and> query_session ''s1''
       (snd (refresh_access_token ex_env 10 ''t2'' ''r2'' ''r1'' ex_rd_stolen ex_state))
     = Some (ex_session\<lparr>revoked_at := Some 10\<rparr>)"
proof -
  have l: "fst (load_session ex_env 10 (session_id ex_token) ex_state) = Row ex_session"
    by (simp add: ex_token_fields ex_load)
  show ?thesis
    using refresh_risk_branch [OF ex_find l, where rd = ex_rd_stolen and new_tid = "''t2''"
        and new_secret = "''r2''"]
    by (simp add: ex_session_fields ex_token_fields ex_risk REAUTH_RISK_def
        query_revoke [OF ex_query])
qed

text \<open>
  The claim as stated fails: with a stored score of 40 and a delta of 30 the cumulative
  score is 70, yet the refresh rotates and stores the session unrevoked with score 70.
\<close>

theorem refresh_cumulative_counterexample:
  "query_session ''s1'' ex_state40 = Some (ex_session\<lparr>risk_score := 40\<rparr>)
   \<and> REAUTH_RISK \<le> risk_score (ex_session\<lparr>risk_score := 40\<rparr>)
                      + calculate_risk (ex_session\<lparr>risk_score := 40\<rparr>) ex_rd_client
   \<and> fst (refresh_access_token ex_env 10 ''t2'' ''r2'' ''r1'' ex_rd_client ex_state40)
       = Inr (ex_session\<lparr>risk_score := 70, last_seen_at := 10\<rparr>, ''r2'')
   \<and> query_session ''s1''
       (snd (refresh_access_token ex_env 10 ''t2'' ''r2'' ''r1'' ex_rd_client ex_state40))
       = Some (ex_session\<lparr>risk_score := 70, last_seen_at := 10\<rparr>)
   \<and> revoked_at (ex_session\<lparr>risk_score := 70, last_seen_at := 10\<rparr>) = None"
proof -
  let ?s = "ex_session\<lparr>risk_score := 40\<rparr>"
  let ?s' = "ex_session\<lparr>risk_score := 70, last_seen_at := 10\<rparr>"
  have q: "query_session ''s1'' ex_state40 = Some ?s"
    by (simp add: query_session_def ex_state40_def ex_session_def)
  have m: "redis_client ex_state40 k = None" for k
    by (simp add: ex_state40_def ex_state_def)
  have l: "load_session ex_env 10 ''s1'' ex_state40 = (Row ?s, ex_state40)"
    by (simp add: load_session_miss m q)
  have f: "find (\<lambda>t. token_hash t = hash_token ex_env ''r1'') (refresh_tokens ex_state40)
             = Some ex_token"
    by (simp add: ex_state40_def ex_state_def ex_token_def ex_env_def)
  have ins: "token_insertable
               \<lparr>t_id = ''t2'', session_id = ''s1'', token_hash = hash_token ex_env ''r2'',
                t_expires_at = 10 + refresh_token_lifetime ex_env, t_revoked_at = None,
                replaced_by = None\<rparr> ex_state40"
    by (simp add: token_insertable_def ex_state40_def ex_state_def ex_token_def ex_env_def)
  have r: "fst (refresh_access_token ex_env 10 ''t2'' ''r2'' ''r1'' ex_rd_client ex_state40)
             = Inr (?s', ''r2'')"
    and t: "sessions (snd (refresh_access_token ex_env 10 ''t2'' ''r2'' ''r1'' ex_rd_client
                             ex_state40)) = [?s']"
    by (simp_all add: refresh_unfold f l ex_token_fields ex_session_fields ex_risk_client
          REAUTH_RISK_def ins)
       (simp_all add: ex_state40_def db_update_def ex_session_def update_session_context_def
          get_def ex_rd_client_def get_geo_info_def)
  show ?thesis
    by (simp add: q r ex_risk_client REAUTH_RISK_def)
       (simp add: query_session_def t, simp add: ex_session_def)
qed

subsection \<open>Replay of a rotated refresh token\<close>

text \<open>
  Claim C1, as amended. A refresh call that presents an already revoked token while the
  owning session is still unrevoked fails with "Refresh token reuse detected"; after it the
  session row carries \<open>revoked_at\<close>, every token of the session is revoked and a
  \<open>token_reuse_detected\<close> event is written. Every later replay of the same token, at any
  time and with any request data, meets the revoked session first: it fails with
  "Session invalid" and changes nothing, so the session stays revoked.
\<close>

theorem refresh_reuse_detected:
  assumes "find (\<lambda>t. token_hash t = hash_token ev refresh_token) (refresh_tokens st) = Some tok"
      and "t_revoked_at tok \<noteq> None"
      and "fst (load_session ev now (session_id tok) st) = Row s"
      and "revoked_at s = None"
  shows "refresh_access_token ev now new_tid new_secret refresh_token rd st
           = (Inl (HTTP401 ''Refresh token reuse detected''),
              log_security_event now (user_id s) (Some (s_id s)) ''token_reuse_detected'' rd
                (revoke_session now s st))
       \<and> query_session (session_id tok)
            (snd (refresh_access_token ev now new_tid new_secret refresh_token rd st))
           = Some (s\<lparr>revoked_at := Some now\<rparr>)
       \<and> (\<forall>t \<in> set (refresh_tokens
                       (snd (refresh_access_token ev now new_tid new_secret refresh_token rd st))).
             session_id t = session_id tok \<longrightarrow> t_revoked_at t \<noteq> None)
       \<and> refresh_access_token ev now_b new_tid_b new_secret_b refresh_token rd_b
            (snd (refresh_access_token ev now new_tid new_secret refresh_token rd st))
           = (Inl (HTTP401 ''Session invalid''),
              snd (refresh_access_token ev now new_tid new_secret refresh_token rd st))"
proof -
  let ?st1 = "log_security_event now (user_id s) (Some (s_id s)) ''token_reuse_detected'' rd
                (revoke_session now s st)"
  let ?g = "\<lambda>t. if session_id t = s_id s \<and> t_revoked_at t = None
                 then t\<lparr>t_revoked_at := Some now\<rparr> else t"
  have q: "query_session (session_id tok) st = Some s" using assms(3) by (rule load_session_Row)
  have i: "s_id s = session_id tok" using q by (rule query_session_id)
  have r: "refresh_access_token ev now new_tid new_secret refresh_token rd st
             = (Inl (HTTP401 ''Refresh token reuse detected''), ?st1)"
    using assms by (simp add: refresh_unfold)
  have q1: "query_session (session_id tok) ?st1 = Some (s\<lparr>revoked_at := Some now\<rparr>)"
    using q i by (simp add: query_revoke)
  have a: "\<forall>t \<in> set (refresh_tokens ?st1). session_id t = session_id tok \<longrightarrow> t_revoked_at t \<noteq> None"
    using i by auto
  have f1: "find (\<lambda>t. token_hash t = hash_token ev refresh_token) (refresh_tokens ?st1)
              = Some (?g tok)"
    using assms(1) by (simp add: find_hash_map)
  have sg: "session_id (?g tok) = session_id tok" by simp
  have m: "redis_client ?st1 (cache_key_of (session_id tok)) = None"
    using i by simp
  have l1: "load_session ev now_b (session_id tok) ?st1
              = (Row (s\<lparr>revoked_at := Some now\<rparr>), ?st1)"
    unfolding load_session_miss [OF m] q1 by simp
  have r2: "refresh_access_token ev now_b new_tid_b new_secret_b refresh_token rd_b ?st1
              = (Inl (HTTP401 ''Session invalid''), ?st1)"
    unfolding refresh_unfold f1 option.case sg l1 by simp
  show ?thesis
    unfolding r snd_conv using q1 a r2 by blast
qed

theorem refresh_reuse_detected_witness:
  "refresh_access_token ex_env 20 ''t3'' ''r3'' ''r1'' ex_rd ex_state_rotated
     = (Inl (HTTP401 ''Refresh token reuse detected''), ex_state_torn)
   \<and> query_session ''s1'' ex_state_torn
       = Some (ex_session\<lparr>last_seen_at := 10, revoked_at := Some 20\<rparr>)
   \<and> refresh_access_token ex_env 30 ''t4'' ''r4'' ''r1'' ex_rd ex_state_torn
       = (Inl (HTTP401 ''Session invalid''), ex_state_torn)"
proof -
  have l: "fst (load_session ex_env 20
                  (session_id (ex_token\<lparr>t_revoked_at := Some 10, replaced_by := Some ''t2''\<rparr>))
                  ex_state_rotated) = Row (ex_session\<lparr>last_seen_at := 10\<rparr>)"
    by (simp add: ex_token_fields ex_rotated_load)
  have t: "t_revoked_at (ex_token\<lparr>t_revoked_at := Some 10, replaced_by := Some ''t2''\<rparr>) \<noteq> None"
    by simp
  have s: "revoked_at (ex_session\<lparr>last_seen_at := 10\<rparr>) = None"
    by (simp add: ex_session_fields)
  show ?thesis
    using refresh_reuse_detected [where new_tid = "''t3''"
        and new_secret = "''r3''" and rd = ex_rd and now_b = 30 and new_tid_b = "''t4''"
        and new_secret_b = "''r4''" and rd_b = ex_rd, OF ex_rotated_find t l s]
    by (simp add: ex_replay ex_token_fields)
qed

text \<open>
  The claim as stated fails at the second replay: after a rotation of \<open>r1\<close>, the first
  replay is answered with "Refresh token reuse detected", the second with "Session invalid".
\<close>

theorem refresh_replay_counterexample:
  "refresh_access_token ex_env 10 ''t2'' ''r2'' ''r1'' ex_rd ex_state
     = (Inr (ex_session\<lparr>last_seen_at := 10\<rparr>, ''r2''), ex_state_rotated)
   \<and> refresh_access_token ex_env 20 ''t3'' ''r3'' ''r1'' ex_rd ex_state_rotated
     = (Inl (HTTP401 ''Refresh token reuse detected''), ex_state_torn)
   \<and> refresh_access_token ex_env 30 ''t4'' ''r4'' ''r1'' ex_rd ex_state_torn
     = (Inl (HTTP401 ''Session invalid''), ex_state_torn)"
  by (simp add: ex_rotation ex_replay ex_replay_again)

subsection \<open>Revoking twice\<close>

lemma revoke_tokens_twice:
  "map (\<lambda>t. if session_id t = sid \<and> t_revoked_at t = None
            then t\<lparr>t_revoked_at := Some b\<rparr> else t)
     (map (\<lambda>t. if session_id t = sid \<and> t_revoked_at t = None
               then t\<lparr>t_revoked_at := Some a\<rparr> else t) ts)
   = map (\<lambda>t. if session_id t = sid \<and> t_revoked_at t = None
              then t\<lparr>t_revoked_at := Some a\<rparr> else t) ts"
  by (induction ts) simp_all

lemma revoke_session_twice_same:
  "revoke_session ta (s\<lparr>revoked_at := Some ta\<rparr>) (revoke_session ta s st) = revoke_session ta s st"
  by (simp add: revoke_session_def Let_def db_update_twice revoke_tokens_twice cache_delete_def)

text \<open>
  Claim C3, as amended. \<open>revoke_session\<close> has no test for a session that is revoked
  already. A second call on the row left by a first one changes no token (the cascade
  touches unrevoked tokens only), writes no security event (\<open>revoke_session\<close> writes none
  at all) and leaves the cache as it is, but it stores the time of the second call in
  \<open>revoked_at\<close>. The state after the second call is the state after the first with that
  one field overwritten, and the two states are equal when the two clock readings are.
\<close>

theorem revoke_session_twice:
  "refresh_tokens (revoke_session tb (s\<lparr>revoked_at := Some ta\<rparr>) (revoke_session ta s st))
     = refresh_tokens (revoke_session ta s st)
   \<and> security_events (revoke_session tb (s\<lparr>revoked_at := Some ta\<rparr>) (revoke_session ta s st))
     = security_events st
   \<and> redis_client (revoke_session tb (s\<lparr>revoked_at := Some ta\<rparr>) (revoke_session ta s st))
     = redis_client (revoke_session ta s st)
   \<and> sessions (revoke_session tb (s\<lparr>revoked_at := Some ta\<rparr>) (revoke_session ta s st))
     = db_update (s\<lparr>revoked_at := Some tb\<rparr>) (sessions st)
   \<and> (query_session (s_id s) st = Some s \<longrightarrow>
        query_session (s_id s) (revoke_session ta s st) = Some (s\<lparr>revoked_at := Some ta\<rparr>)
        \<and> query_session (s_id s)
             (revoke_session tb (s\<lparr>revoked_at := Some ta\<rparr>) (revoke_session ta s st))
           = Some (s\<lparr>revoked_at := Some tb\<rparr>))
   \<and> (tb = ta \<longrightarrow>
        revoke_session tb (s\<lparr>revoked_at := Some ta\<rparr>) (revoke_session ta s st)
          = revoke_session ta s st)"
proof (intro conjI impI)
  show "refresh_tokens (revoke_session tb (s\<lparr>revoked_at := Some ta\<rparr>) (revoke_session ta s st))
          = refresh_tokens (revoke_session ta s st)"
    by (simp add: revoke_tokens_twice)
  show "security_events (revoke_session tb (s\<lparr>revoked_at := Some ta\<rparr>) (revoke_session ta s st))
          = security_events st"
    by simp
  show "redis_client (revoke_session tb (s\<lparr>revoked_at := Some ta\<rparr>) (revoke_session ta s st))
          = redis_client (revoke_session ta s st)"
    by simp
  show "sessions (revoke_session tb (s\<lparr>revoked_at := Some ta\<rparr>) (revoke_session ta s st))
          = db_update (s\<lparr>revoked_at := Some tb\<rparr>) (sessions st)"
    by (simp add: db_update_twice)
next
  assume q: "query_session (s_id s) st = Some s"
  show "query_session (s_id s) (revoke_session ta s st) = Some (s\<lparr>revoked_at := Some ta\<rparr>)"
    using q by (simp add: query_revoke)
  then show "query_session (s_id s)
               (revoke_session tb (s\<lparr>revoked_at := Some ta\<rparr>) (revoke_session ta s st))
             = Some (s\<lparr>revoked_at := Some tb\<rparr>)"
    using query_revoke [of "s_id s" "revoke_session ta s st" "s\<lparr>revoked_at := Some ta\<rparr>"
        "s\<lparr>revoked_at := Some ta\<rparr>" tb]
    by simp
next
  assume "tb = ta"
  then show "revoke_session tb (s\<lparr>revoked_at := Some ta\<rparr>) (revoke_session ta s st)
               = revoke_session ta s st"
    by (simp add: revoke_session_twice_same)
qed

theorem revoke_session_twice_witness:
  "query_session ''s1'' (revoke_session 100 ex_session ex_state)
     = Some (ex_session\<lparr>revoked_at := Some 100\<rparr>)
   \<and> revoke_session 100 (ex_session\<lparr>revoked_at := Some 100\<rparr>)
        (revoke_session 100 ex_session ex_state)
     = revoke_session 100 ex_session ex_state"
  using revoke_session_twice [where s = ex_session and st = ex_state and ta = 100 and tb = 100]
  by (simp add: ex_session_fields ex_query)

text \<open>
  The claim as stated fails: revoked at 100 and revoked again at 200, the session row
  carries \<open>revoked_at\<close> = 200.
\<close>

theorem revoke_overwrites_counterexample:
  "query_session ''s1'' (revoke_session 100 ex_session ex_state)
     = Some (ex_session\<lparr>revoked_at := Some 100\<rparr>)
   \<and> query_session ''s1''
       (revoke_session 200 (ex_session\<lparr>revoked_at := Some 100\<rparr>)
          (revoke_session 100 ex_session ex_state))
     = Some (ex_session\<lparr>revoked_at := Some 200\<rparr>)
   \<and> revoke_session 200 (ex_session\<lparr>revoked_at := Some 100\<rparr>)
        (revoke_session 100 ex_session ex_state)
     \<noteq> revoke_session 100 ex_session ex_state"
proof -
  have a: "query_session ''s1'' (revoke_session 100 ex_session ex_state)
             = Some (ex_session\<lparr>revoked_at := Some 100\<rparr>)"
    by (simp add: query_revoke [OF ex_query] ex_session_fields)
  have b: "query_session ''s1''
             (revoke_session 200 (ex_session\<lparr>revoked_at := Some 100\<rparr>)
                (revoke_session 100 ex_session ex_state))
           = Some (ex_session\<lparr>revoked_at := Some 200\<rparr>)"
    using query_revoke [OF a, of "ex_session\<lparr>revoked_at := Some 100\<rparr>" 200]
    by (simp add: ex_session_fields)
  have "ex_session\<lparr>revoked_at := Some 200\<rparr> \<noteq> ex_session\<lparr>revoked_at := Some 100\<rparr>"
    by (simp add: ex_session_def)
  with a b have "revoke_session 200 (ex_session\<lparr>revoked_at := Some 100\<rparr>)
                   (revoke_session 100 ex_session ex_state)
                 \<noteq> revoke_session 100 ex_session ex_state"
    by (metis option.inject)
  with a b show ?thesis by simp
qed

subsection \<open>The cache-backed lookup\<close>

text \<open>
  Claim C8 describes a lookup whose miss backfills the cache and whose hit returns data
  equivalent to the store's. Evaluated on a store that holds the valid session \<open>s1\<close> and
  an empty cache, \<open>load_session\<close> returns the row and leaves the cache empty: the backfill
  of \<open>cache_session\<close> hands the ORM object to \<open>json.dumps\<close>, which raises, and
  \<open>cache_set\<close> swallows the exception, so the next lookup misses again. Where the cache does
  hold an entry under the session's key, \<open>load_session\<close> returns the decoded JSON value,
  on which \<open>authenticate_request\<close> stops at the attribute access.
\<close>

theorem load_session_backfill_lost:
  "load_session ex_env 10 ''s1'' ex_state = (Row ex_session, ex_state)
   \<and> revoked_at ex_session = None \<and> 10 < expires_at ex_session
   \<and> cache_get 11 (cache_key_of ''s1'')
        (redis_client (snd (load_session ex_env 10 ''s1'' ex_state))) = None
   \<and> cache_session ex_env 10 ex_session ex_state = ex_state
   \<and> load_session ex_env 10 ''s1'' ex_state_cached
       = (Cached (JObj [(''id'', JStr ''s1'')]), ex_state_cached)
   \<and> fst (authenticate_request ex_env 10 ''s1'' ex_rd ex_state_cached) = Inl AttributeError"
proof -
  have c: "cache_get 10 (cache_key_of ''s1'') (redis_client ex_state_cached)
             = Some (JObj [(''id'', JStr ''s1'')])"
    by (simp add: cache_get_def ex_state_cached_def)
  have l: "load_session ex_env 10 ''s1'' ex_state_cached
       = (Cached (JObj [(''id'', JStr ''s1'')]), ex_state_cached)"
    by (simp add: load_session_def c Let_def)
  show ?thesis
    by (simp add: ex_load ex_session_fields cache_session_noop l authenticate_unfold
        cache_get_def ex_miss)
qed

subsection \<open>The risk score never decreases\<close>

lemma rows_le_refl: "rows_le rows rows"
  by (simp add: rows_le_def)

lemma rows_le_trans: "rows_le a b \<Longrightarrow> rows_le b c \<Longrightarrow> rows_le a c"
  unfolding rows_le_def by (meson order_trans)

lemma find_app:
  "find P (xs @ ys) = (case find P xs of None \<Rightarrow> find P ys | Some x \<Rightarrow> Some x)"
  by (induction xs) simp_all

lemma ids_db_update: "map s_id (db_update s' rows) = map s_id rows"
  by (induction rows) (simp_all add: db_update_def)

lemma rows_le_db_update:
  assumes "find (\<lambda>r. s_id r = s_id s') rows = Some s" and "risk_score s \<le> risk_score s'"
  shows "rows_le rows (db_update s' rows)"
  unfolding rows_le_def
proof (intro allI impI)
  fix sid x assume f: "find (\<lambda>r. s_id r = sid) rows = Some x"
  show "\<exists>y. find (\<lambda>r. s_id r = sid) (db_update s' rows) = Some y \<and> risk_score x \<le> risk_score y"
  proof (cases "s_id s' = sid")
    case True
    with assms f show ?thesis by (auto simp: find_db_update)
  next
    case False
    with f show ?thesis by (simp add: find_db_update_other)
  qed
qed

lemma rows_le_append: "rows_le rows (rows @ [s])"
  by (auto simp: rows_le_def find_app)

lemma rows_le_keys:
  "map risk_key rows = map risk_key rows' \<Longrightarrow> rows_le rows rows'"
proof (induction rows arbitrary: rows')
  case Nil
  then show ?case by (simp add: rows_le_def)
next
  case (Cons r rows)
  then obtain r' rest where e: "rows' = r' # rest" "risk_key r = risk_key r'"
    "map risk_key rows = map risk_key rest" by auto
  from Cons.IH [OF e(3)] e(2) show ?case
    unfolding e(1) rows_le_def risk_key_def by auto
qed

lemma ids_of_keys: "map s_id rows = map fst (map risk_key rows)"
  by (simp add: risk_key_def o_def)

lemma sessions_fold_revoke:
  "sessions (fold (revoke_session now) as st)
     = fold (\<lambda>a. db_update (a\<lparr>revoked_at := Some now\<rparr>)) as (sessions st)"
  by (induction as arbitrary: st) simp_all

lemma keys_fold_revoke:
  assumes "distinct (map s_id rows)" and "set as \<subseteq> set rows0"
      and "map risk_key rows = map risk_key rows0"
  shows "map risk_key (fold (\<lambda>a. db_update (a\<lparr>revoked_at := Some now\<rparr>)) as rows)
           = map risk_key rows0"
  using assms
proof (induction as arbitrary: rows)
  case Nil
  then show ?case by simp
next
  case (Cons a as)
  let ?rows1 = "db_update (a\<lparr>revoked_at := Some now\<rparr>) rows"
  have k: "risk_key a \<in> set (map risk_key rows)" using Cons.prems by auto
  have "risk_key (if s_id r = s_id a then a\<lparr>revoked_at := Some now\<rparr> else r) = risk_key r"
    if "r \<in> set rows" for r
  proof (cases "s_id r = s_id a")
    case True
    have "risk_key r \<in> set (map risk_key rows)"
      using that by simp
    then have "(s_id a, risk_score r) \<in> set (map risk_key rows)"
      using True by (simp add: risk_key_def)
    moreover have "(s_id a, risk_score a) \<in> set (map risk_key rows)"
      using k by (simp add: risk_key_def)
    moreover have "distinct (map fst (map risk_key rows))"
      using Cons.prems(1) by (simp add: ids_of_keys)
    ultimately have "risk_score r = risk_score a"
      by (meson eq_key_imp_eq_value)
    with True show ?thesis by (simp add: risk_key_def)
  next
    case False
    then show ?thesis by simp
  qed
  then have e: "map risk_key ?rows1 = map risk_key rows" by (simp add: db_update_def)
  have "map risk_key (fold (\<lambda>a. db_update (a\<lparr>revoked_at := Some now\<rparr>)) as ?rows1)
          = map risk_key rows0"
  proof (rule Cons.IH)
    show "distinct (map s_id ?rows1)" using Cons.prems(1) by (simp add: ids_db_update)
    show "set as \<subseteq> set rows0" using Cons.prems(2) by simp
    show "map risk_key ?rows1 = map risk_key rows0" using e Cons.prems(3) by simp
  qed
  then show ?case by simp
qed

lemma ids_fold_revoke:
  "map s_id (fold (\<lambda>a. db_update (a\<lparr>revoked_at := Some now\<rparr>)) as rows) = map s_id rows"
  by (induction as arbitrary: rows) (simp_all add: ids_db_update)

lemma sessions_revoke_all:
  "sessions (revoke_all_sessions now uid st)
     = fold (\<lambda>a. db_update (a\<lparr>revoked_at := Some now\<rparr>))
         (filter (\<lambda>s. user_id s = uid \<and> revoked_at s = None) (sessions st)) (sessions st)"
  by (simp add: revoke_all_sessions_def Let_def sessions_fold_revoke)

lemma rows_le_revoke_all:
  assumes "distinct (map s_id (sessions st))"
  shows "rows_le (sessions st) (sessions (revoke_all_sessions now uid st))"
proof -
  have "map risk_key (sessions (revoke_all_sessions now uid st)) = map risk_key (sessions st)"
    unfolding sessions_revoke_all
    by (rule keys_fold_revoke [OF assms]) auto
  then show ?thesis by (simp add: rows_le_keys)
qed

lemma touched_refl: "touched rows rows"
  by (simp add: touched_def)

lemma touchedI:
  "find (\<lambda>r. s_id r = s_id s') rows = Some s \<Longrightarrow> risk_score s \<le> risk_score s' \<Longrightarrow>
   touched rows (db_update s' rows)"
  unfolding touched_def by blast

lemma touched_rows_le: "touched rows rows' \<Longrightarrow> rows_le rows rows'"
  unfolding touched_def by (auto simp: rows_le_refl rows_le_db_update)

lemma touched_ids: "touched rows rows' \<Longrightarrow> map s_id rows' = map s_id rows"
  unfolding touched_def by (auto simp: ids_db_update)

lemma touched_revoke:
  assumes "query_session sid st = Some s"
  shows "touched (sessions st) (sessions (revoke_session now s st))"
proof -
  have "find (\<lambda>r. s_id r = s_id (s\<lparr>revoked_at := Some now\<rparr>)) (sessions st) = Some s"
    using assms query_session_id [OF assms] by (simp add: query_session_def)
  then show ?thesis by (simp add: touchedI)
qed

lemma touched_authenticate:
  "touched (sessions st) (sessions (snd (authenticate_request ev now sid rd st)))"
proof (cases "fst (load_session ev now sid st)")
  case Absent
  then show ?thesis by (simp add: authenticate_unfold touched_refl)
next
  case (Cached j)
  then show ?thesis by (simp add: authenticate_unfold touched_refl)
next
  case (Row s)
  have q: "query_session sid st = Some s" using Row by (rule load_session_Row)
  have i: "s_id s = sid" using q by (rule query_session_id)
  have f: "find (\<lambda>r. s_id r = sid) (sessions st) = Some s"
    using q by (simp add: query_session_def)
  show ?thesis
    unfolding authenticate_unfold Row loaded.case
    by (auto intro!: touchedI [where s = s] touched_refl
        simp: i f calculate_risk_nonneg update_session_context_fields)
qed

lemma touched_refresh:
  "touched (sessions st)
     (sessions (snd (refresh_access_token ev now new_tid new_secret refresh_token rd st)))"
proof (cases "find (\<lambda>t. token_hash t = hash_token ev refresh_token) (refresh_tokens st)")
  case None
  then show ?thesis by (simp add: refresh_unfold touched_refl)
next
  case (Some tok)
  show ?thesis
  proof (cases "fst (load_session ev now (session_id tok) st)")
    case Absent
    then show ?thesis by (simp add: refresh_unfold Some touched_refl)
  next
    case (Cached j)
    then show ?thesis by (simp add: refresh_unfold Some touched_refl)
  next
    case (Row s)
    have q: "query_session (session_id tok) st = Some s" using Row by (rule load_session_Row)
    have i: "s_id s = session_id tok" using q by (rule query_session_id)
    have f: "find (\<lambda>r. s_id r = session_id tok) (sessions st) = Some s"
      using q by (simp add: query_session_def)
    show ?thesis
      unfolding refresh_unfold Some option.case Row loaded.case
      by (auto intro!: touchedI [where s = s] touched_refl
          simp: i f calculate_risk_nonneg update_session_context_fields)
  qed
qed

lemma touched_step_revoke:
  "touched (sessions st) (sessions (step ev (Revoke now sid) st))"
proof (cases "fst (load_session ev now sid st)")
  case (Row s)
  have q: "query_session sid st = Some s" using Row by (rule load_session_Row)
  have "load_session ev now sid st = (Row s, st)"
    using Row load_session_snd [of ev now sid st] by simp
  then show ?thesis using touched_revoke [OF q] by simp
next
  case Absent
  then have "load_session ev now sid st = (Absent, st)"
    using load_session_snd [of ev now sid st] by simp
  then show ?thesis by (simp add: touched_refl)
next
  case (Cached j)
  then have "load_session ev now sid st = (Cached j, st)"
    using load_session_snd [of ev now sid st] by simp
  then show ?thesis by (simp add: touched_refl)
qed

lemma create_effect:
  "snd (create_session ev now new_sid new_tid new_secret uid rd st) = st
   \<or> (new_sid \<notin> set (map s_id (sessions st))
      \<and> (\<exists>s0. fst (create_session ev now new_sid new_tid new_secret uid rd st)
                    = Inr (s0, new_secret)
            \<and> s_id s0 = new_sid \<and> risk_score s0 = 0 \<and> revoked_at s0 = None
            \<and> snd (create_session ev now new_sid new_tid new_secret uid rd st)
                = log_security_event now uid (Some new_sid) ''session_created'' rd
                    (st\<lparr>sessions := sessions st @ [s0],
                        refresh_tokens := refresh_tokens st @
                          [\<lparr>t_id = new_tid, session_id = new_sid,
                            token_hash = hash_token ev new_secret,
                            t_expires_at = now + refresh_token_lifetime ev,
                            t_revoked_at = None, replaced_by = None\<rparr>]\<rparr>)))"
  by (cases "parse_user_agent ev (get_default rd ''user_agent'' (PyStr []))")
     (simp_all add: create_session_def Let_def cache_session_noop)

lemma create_Inr:
  assumes "create_session ev now new_sid new_tid new_secret uid rd st = (Inr res, st')"
  shows "new_sid \<notin> set (map s_id (sessions st)) \<and> snd res = new_secret
         \<and> s_id (fst res) = new_sid \<and> risk_score (fst res) = 0 \<and> revoked_at (fst res) = None
         \<and> sessions st' = sessions st @ [fst res]
         \<and> refresh_tokens st' = refresh_tokens st @
              [\<lparr>t_id = new_tid, session_id = new_sid, token_hash = hash_token ev new_secret,
                t_expires_at = now + refresh_token_lifetime ev,
                t_revoked_at = None, replaced_by = None\<rparr>]"
  using assms
  by (cases "parse_user_agent ev (get_default rd ''user_agent'' (PyStr []))")
     (auto simp: create_session_def Let_def cache_session_noop split: if_splits)

lemma step_ids:
  assumes "distinct (map s_id (sessions st))"
  shows "distinct (map s_id (sessions (step ev op st)))"
proof (cases op)
  case (Create now new_sid new_tid new_secret uid rd)
  show ?thesis
    using create_effect [of ev now new_sid new_tid new_secret uid rd st] assms
    unfolding Create by auto
next
  case (Authenticate now sid rd)
  show ?thesis using touched_ids [OF touched_authenticate] assms
    unfolding Authenticate step.simps by metis
next
  case (Refresh now new_tid new_secret refresh_token rd)
  show ?thesis using touched_ids [OF touched_refresh] assms
    unfolding Refresh step.simps by metis
next
  case (Revoke now sid)
  show ?thesis using touched_ids [OF touched_step_revoke] assms
    unfolding Revoke by metis
next
  case (RevokeAll now uid)
  show ?thesis using assms
    unfolding RevokeAll step.simps sessions_revoke_all ids_fold_revoke .
next
  case (Load now sid)
  show ?thesis using assms load_session_snd [of ev now sid st]
    unfolding Load by (metis snd_conv step.simps(6))
qed

lemma step_rows_le:
  assumes "distinct (map s_id (sessions st))"
  shows "rows_le (sessions st) (sessions (step ev op st))"
proof (cases op)
  case (Create now new_sid new_tid new_secret uid rd)
  show ?thesis
    using create_effect [of ev now new_sid new_tid new_secret uid rd st]
    unfolding Create by (auto simp: rows_le_refl rows_le_append)
next
  case (Authenticate now sid rd)
  show ?thesis unfolding Authenticate step.simps
    by (rule touched_rows_le [OF touched_authenticate])
next
  case (Refresh now new_tid new_secret refresh_token rd)
  show ?thesis unfolding Refresh step.simps
    by (rule touched_rows_le [OF touched_refresh])
next
  case (Revoke now sid)
  show ?thesis unfolding Revoke
    by (rule touched_rows_le [OF touched_step_revoke])
next
  case (RevokeAll now uid)
  show ?thesis unfolding RevokeAll step.simps
    by (rule rows_le_revoke_all [OF assms])
next
  case (Load now sid)
  show ?thesis using load_session_snd [of ev now sid st]
    unfolding Load by (metis rows_le_refl snd_conv step.simps(6))
qed

lemma run_rows_le:
  "distinct (map s_id (sessions st)) \<Longrightarrow>
   rows_le (sessions st) (sessions (run ev ops st))
   \<and> distinct (map s_id (sessions (run ev ops st)))"
proof (induction ops arbitrary: st)
  case Nil
  then show ?case by (simp add: run_def rows_le_refl)
next
  case (Cons op ops)
  have d: "distinct (map s_id (sessions (step ev op st)))"
    using Cons.prems by (rule step_ids)
  have "rows_le (sessions st) (sessions (step ev op st))"
    using Cons.prems by (rule step_rows_le)
  moreover have "rows_le (sessions (step ev op st)) (sessions (run ev ops (step ev op st)))"
    and "distinct (map s_id (sessions (run ev ops (step ev op st))))"
    using Cons.IH [OF d] by simp_all
  ultimately show ?case
    by (auto simp: run_def intro: rows_le_trans)
qed

text \<open>
  Claim C6. A session is created with \<open>risk_score\<close> 0, and no operation lowers the score of
  a stored session: after any single call (create, authenticate, refresh, revoke, revoke-all,
  load) and after any sequence of calls, the row found under the session's id carries a
  score at least as large as before. The sessions table is taken with its primary key
  (distinct ids), which every operation preserves.
\<close>

theorem risk_score_monotone:
  "(create_session ev now new_sid new_tid new_secret uid rd st = (Inr (s_new, secret), st_new)
      \<longrightarrow> risk_score s_new = 0 \<and> query_session new_sid st_new = Some s_new)
   \<and> (distinct (map s_id (sessions st)) \<and> query_session sid st = Some s
      \<longrightarrow> (\<exists>s'. query_session sid (step ev op st) = Some s' \<and> risk_score s \<le> risk_score s')
        \<and> (\<exists>s'. query_session sid (run ev ops st) = Some s' \<and> risk_score s \<le> risk_score s'))"
proof (intro conjI impI)
  assume c: "create_session ev now new_sid new_tid new_secret uid rd st = (Inr (s_new, secret), st_new)"
  from create_Inr [OF c] show "risk_score s_new = 0" by simp
  from create_Inr [OF c] have n: "new_sid \<notin> set (map s_id (sessions st))"
    and i: "s_id s_new = new_sid" and e: "sessions st_new = sessions st @ [s_new]" by simp_all
  have "find (\<lambda>r. s_id r = new_sid) (sessions st) = None"
    using n by (auto simp: find_None_iff)
  then show "query_session new_sid st_new = Some s_new"
    by (simp add: query_session_def e find_app i)
next
  assume a: "distinct (map s_id (sessions st)) \<and> query_session sid st = Some s"
  then have d: "distinct (map s_id (sessions st))"
    and f: "find (\<lambda>r. s_id r = sid) (sessions st) = Some s"
    by (simp_all add: query_session_def)
  from step_rows_le [OF d, of ev op] f
  show "\<exists>s'. query_session sid (step ev op st) = Some s' \<and> risk_score s \<le> risk_score s'"
    unfolding rows_le_def query_session_def by blast
  from run_rows_le [OF d, of ev ops] f
  show "\<exists>s'. query_session sid (run ev ops st) = Some s' \<and> risk_score s \<le> risk_score s'"
    unfolding rows_le_def query_session_def by blast
qed

theorem risk_score_monotone_witness:
  "risk_score ex_session = 0 \<and> query_session ''s1'' ex_state = Some ex_session
   \<and> (\<exists>s'. query_session ''s1'' (step ex_env (Authenticate 10 ''s1'' ex_rd_newdev) ex_state)
              = Some s' \<and> 0 \<le> risk_score s')
   \<and> (\<exists>s'. query_session ''s1''
               (run ex_env [Authenticate 10 ''s1'' ex_rd_newdev, Revoke 20 ''s1''] ex_state)
              = Some s' \<and> 0 \<le> risk_score s')"
proof -
  have d: "distinct (map s_id (sessions ex_state))"
    by (simp add: ex_state_def)
  show ?thesis
    using risk_score_monotone [where ev = ex_env and now = 0 and new_sid = "''s1''"
        and new_tid = "''t1''" and new_secret = "''r1''" and uid = 1 and rd = ex_rd
        and st = "empty_state Map.empty" and s_new = ex_session and secret = "''r1''"
        and st_new = ex_state and sid = "''s1''" and s = ex_session]
      risk_score_monotone [where st = ex_state and sid = "''s1''" and s = ex_session
        and ev = ex_env and op = "Authenticate 10 ''s1'' ex_rd_newdev"
        and ops = "[Authenticate 10 ''s1'' ex_rd_newdev, Revoke 20 ''s1'']"]
    by (simp add: ex_create ex_query d ex_session_fields)
qed

subsection \<open>At most one unrevoked token per session\<close>

lemma filter_map_le:
  assumes "\<And>t. P (g t) \<Longrightarrow> P t"
  shows "length (filter P (map g ts)) \<le> length (filter P ts)"
  by (induction ts) (auto dest: assms)

lemma filter_conj_le: "length (filter (\<lambda>t. P t \<and> Q t) ts) \<le> length (filter P ts)"
  by (induction ts) auto

lemma filter_le1_unique:
  assumes "length (filter P xs) \<le> 1" and "x \<in> set xs" and "P x" and "y \<in> set xs" and "P y"
  shows "x = y"
proof (cases "filter P xs")
  case Nil
  then show ?thesis using assms(2,3) by (auto simp: filter_empty_conv)
next
  case (Cons z zs)
  then have "zs = []" using assms(1) by simp
  then have "set (filter P xs) = {z}" using Cons by simp
  moreover have "x \<in> set (filter P xs)" "y \<in> set (filter P xs)" using assms by simp_all
  ultimately show ?thesis by simp
qed

lemma usable_le_live: "length (usable_tokens now sid st) \<le> length (live_tokens sid st)"
proof -
  have "usable_tokens now sid st
          = filter (\<lambda>t. (session_id t = sid \<and> t_revoked_at t = None) \<and> \<not> t_expires_at t < now)
              (refresh_tokens st)"
    by (simp add: usable_tokens_def conj_assoc)
  then show ?thesis
    unfolding live_tokens_def by (simp only: filter_conj_le)
qed

lemma live_revoke_le:
  "length (live_tokens sid (revoke_session now s st)) \<le> length (live_tokens sid st)"
  unfolding live_tokens_def tokens_revoke
  by (rule filter_map_le) (simp split: if_splits)

lemma live_revoke_own: "live_tokens (s_id s) (revoke_session now s st) = []"
  unfolding live_tokens_def tokens_revoke
  by (auto simp: filter_empty_conv)

lemma ids_image_db_update: "s_id ` set (db_update s' rows) = s_id ` set rows"
proof -
  have "set (map s_id (db_update s' rows)) = set (map s_id rows)"
    by (simp only: ids_db_update)
  then show ?thesis by (simp only: set_map)
qed

lemma session_ids_revoke_map:
  "session_id ` set (map (\<lambda>t. if C t then t\<lparr>t_revoked_at := x\<rparr> else t) ts)
     = session_id ` set ts"
proof -
  have "map session_id (map (\<lambda>t. if C t then t\<lparr>t_revoked_at := x\<rparr> else t) ts)
          = map session_id ts"
    by (induction ts) simp_all
  then have "set (map session_id (map (\<lambda>t. if C t then t\<lparr>t_revoked_at := x\<rparr> else t) ts))
               = set (map session_id ts)"
    by (rule arg_cong)
  then show ?thesis by (simp only: set_map)
qed

lemma tok_inv_revoke: "tok_inv st \<Longrightarrow> tok_inv (revoke_session now s st)"
  unfolding tok_inv_def
proof (intro conjI allI)
  assume a: "(\<forall>sid. length (live_tokens sid st) \<le> 1)
             \<and> session_id ` set (refresh_tokens st) \<subseteq> s_id ` set (sessions st)"
  fix sid
  show "length (live_tokens sid (revoke_session now s st)) \<le> 1"
    using a live_revoke_le [of sid now s st] by (meson order_trans)
next
  assume a: "(\<forall>sid. length (live_tokens sid st) \<le> 1)
             \<and> session_id ` set (refresh_tokens st) \<subseteq> s_id ` set (sessions st)"
  have "s_id ` set (sessions (revoke_session now s st)) = s_id ` set (sessions st)"
    unfolding sessions_revoke by (rule ids_image_db_update)
  moreover have "session_id ` set (refresh_tokens (revoke_session now s st))
                   = session_id ` set (refresh_tokens st)"
    unfolding tokens_revoke by (rule session_ids_revoke_map)
  ultimately show "session_id ` set (refresh_tokens (revoke_session now s st))
                     \<subseteq> s_id ` set (sessions (revoke_session now s st))"
    using a by (simp only:)
qed

lemma tok_inv_log [simp]: "tok_inv (log_security_event now u x e rd st) = tok_inv st"
  by (simp add: tok_inv_def live_tokens_def)

lemma tok_inv_db_update:
  "tok_inv (st\<lparr>sessions := db_update s' (sessions st)\<rparr>) = tok_inv st"
proof -
  have "s_id ` set (db_update s' (sessions st)) = s_id ` set (sessions st)"
    by (rule ids_image_db_update)
  then show ?thesis by (simp add: tok_inv_def live_tokens_def)
qed

lemma tok_inv_fold_revoke: "tok_inv st \<Longrightarrow> tok_inv (fold (revoke_session now) as st)"
  by (induction as arbitrary: st) (simp_all add: tok_inv_revoke)

lemma tok_inv_empty: "tok_inv (empty_state r)"
  by (simp add: tok_inv_def live_tokens_def empty_state_def)

lemma find_in_set: "find P xs = Some x \<Longrightarrow> x \<in> set xs \<and> P x"
  by (induction xs) (auto split: if_splits)

lemma rotation_live:
  assumes l1: "\<forall>sid. length (live_tokens sid st) \<le> 1"
      and f: "find (\<lambda>t. token_hash t = h) (refresh_tokens st) = Some tok"
      and live: "t_revoked_at tok = None"
      and n: "session_id new = session_id tok" "t_revoked_at new = None"
      and ts': "refresh_tokens st' =
                  map (\<lambda>t. if t_id t = t_id tok
                           then t\<lparr>t_revoked_at := Some now, replaced_by := Some new_tid\<rparr>
                           else t) (refresh_tokens st) @ [new]"
  shows "live_tokens (session_id tok) st' = [new]"
    and "\<forall>sid. length (live_tokens sid st') \<le> 1"
proof -
  let ?g = "\<lambda>t. if t_id t = t_id tok
                 then t\<lparr>t_revoked_at := Some now, replaced_by := Some new_tid\<rparr> else t"
  let ?P = "\<lambda>sid t. session_id t = sid \<and> t_revoked_at t = None"
  have mem: "tok \<in> set (refresh_tokens st)" using find_in_set [OF f] by simp
  have orig: "?P sid t" if "?P sid (?g t)" for sid t
    using that by (cases "t_id t = t_id tok") simp_all
  have none: "\<not> ?P (session_id tok) (?g t)" if t: "t \<in> set (refresh_tokens st)" for t
  proof
    assume p: "?P (session_id tok) (?g t)"
    then have d: "t_id t \<noteq> t_id tok" by (cases "t_id t = t_id tok") simp_all
    have pt: "?P (session_id tok) t" using orig [OF p] .
    have le: "length (filter (?P (session_id tok)) (refresh_tokens st)) \<le> 1"
      using l1 by (simp add: live_tokens_def)
    have ptok: "?P (session_id tok) tok" using live by simp
    have "t = tok"
      by (rule filter_le1_unique [OF le t pt mem ptok])
    with d show False by simp
  qed
  have "\<forall>x \<in> set (map ?g (refresh_tokens st)). \<not> ?P (session_id tok) x"
  proof
    fix x assume "x \<in> set (map ?g (refresh_tokens st))"
    then obtain t where t: "t \<in> set (refresh_tokens st)" and x: "x = ?g t"
      unfolding set_map image_iff by blast
    show "\<not> ?P (session_id tok) x" unfolding x by (rule none [OF t])
  qed
  then have e: "filter (?P (session_id tok)) (map ?g (refresh_tokens st)) = []"
    by (simp only: filter_empty_conv)
  show own: "live_tokens (session_id tok) st' = [new]"
    unfolding live_tokens_def ts' using e n by simp
  show "\<forall>sid. length (live_tokens sid st') \<le> 1"
  proof
    fix sid
    show "length (live_tokens sid st') \<le> 1"
    proof (cases "sid = session_id tok")
      case True
      then show ?thesis using own by simp
    next
      case False
      have "length (filter (?P sid) (map ?g (refresh_tokens st)))
              \<le> length (filter (?P sid) (refresh_tokens st))"
        by (rule filter_map_le) (rule orig)
      also have "\<dots> \<le> 1" using l1 by (simp add: live_tokens_def)
      finally have le: "length (filter (?P sid) (map ?g (refresh_tokens st))) \<le> 1" .
      have np: "filter (?P sid) [new] = []" using False n by simp
      have "live_tokens sid st'
              = filter (?P sid) (map ?g (refresh_tokens st)) @ filter (?P sid) [new]"
        unfolding live_tokens_def ts' by (simp only: filter_append)
      then have "live_tokens sid st' = filter (?P sid) (map ?g (refresh_tokens st))"
        by (simp only: np append_Nil2)
      then show ?thesis using le by (simp only:)
    qed
  qed
qed

lemma rotation_fk:
  assumes fk: "session_id ` set (refresh_tokens st) \<subseteq> s_id ` set (sessions st)"
      and q: "query_session (session_id new) st = Some s"
      and ss': "sessions st' = db_update s2 (sessions st)"
      and ts': "refresh_tokens st' =
                  map (\<lambda>t. if t_id t = t_id tok
                           then t\<lparr>t_revoked_at := Some now, replaced_by := Some new_tid\<rparr>
                           else t) (refresh_tokens st) @ [new]"
  shows "session_id ` set (refresh_tokens st') \<subseteq> s_id ` set (sessions st')"
proof -
  let ?g = "\<lambda>t. if t_id t = t_id tok
                 then t\<lparr>t_revoked_at := Some now, replaced_by := Some new_tid\<rparr> else t"
  have "map session_id (map ?g (refresh_tokens st)) = map session_id (refresh_tokens st)"
    by (induction "refresh_tokens st") simp_all
  then have "set (map session_id (map ?g (refresh_tokens st)))
               = set (map session_id (refresh_tokens st))"
    by (rule arg_cong)
  then have m: "session_id ` set (map ?g (refresh_tokens st))
                  = session_id ` set (refresh_tokens st)"
    by (simp only: set_map)
  have "s \<in> set (sessions st) \<and> s_id s = session_id new"
    using find_in_set [of "\<lambda>r. s_id r = session_id new" "sessions st" s] q
    by (simp add: query_session_def)
  then have i: "session_id new \<in> s_id ` set (sessions st)" by (metis imageI)
  have "session_id ` set (refresh_tokens st')
          = insert (session_id new) (session_id ` set (refresh_tokens st))"
    unfolding ts' using m by simp
  then show ?thesis
    unfolding ss' ids_image_db_update using fk i by simp
qed

lemma refresh_Inr:
  assumes "refresh_access_token ev now new_tid new_secret refresh_token rd st = (Inr res, st')"
  shows "\<exists>tok s. find (\<lambda>t. token_hash t = hash_token ev refresh_token) (refresh_tokens st)
                   = Some tok
           \<and> query_session (session_id tok) st = Some s
           \<and> revoked_at s = None \<and> t_revoked_at tok = None \<and> \<not> t_expires_at tok < now
           \<and> \<not> REAUTH_RISK \<le> calculate_risk s rd
           \<and> res = (update_session_context rd
                       (s\<lparr>last_seen_at := now,
                          risk_score := risk_score s + calculate_risk s rd\<rparr>), new_secret)
           \<and> sessions st' = db_update (fst res) (sessions st)
           \<and> refresh_tokens st' =
                map (\<lambda>t. if t_id t = t_id tok
                          then t\<lparr>t_revoked_at := Some now, replaced_by := Some new_tid\<rparr>
                          else t) (refresh_tokens st)
                @ [\<lparr>t_id = new_tid, session_id = s_id s, token_hash = hash_token ev new_secret,
                    t_expires_at = now + refresh_token_lifetime ev,
                    t_revoked_at = None, replaced_by = None\<rparr>]"
proof -
  from assms obtain tok where
    f: "find (\<lambda>t. token_hash t = hash_token ev refresh_token) (refresh_tokens st) = Some tok"
    by (cases "find (\<lambda>t. token_hash t = hash_token ev refresh_token) (refresh_tokens st)")
       (simp_all add: refresh_unfold)
  from assms f obtain s where l: "fst (load_session ev now (session_id tok) st) = Row s"
    by (cases "fst (load_session ev now (session_id tok) st)") (simp_all add: refresh_unfold)
  have q: "query_session (session_id tok) st = Some s" using l by (rule load_session_Row)
  from assms have "revoked_at s = None \<and> t_revoked_at tok = None \<and> \<not> t_expires_at tok < now
           \<and> \<not> REAUTH_RISK \<le> calculate_risk s rd
           \<and> res = (update_session_context rd
                       (s\<lparr>last_seen_at := now,
                          risk_score := risk_score s + calculate_risk s rd\<rparr>), new_secret)
           \<and> sessions st' = db_update (fst res) (sessions st)
           \<and> refresh_tokens st' =
                map (\<lambda>t. if t_id t = t_id tok
                          then t\<lparr>t_revoked_at := Some now, replaced_by := Some new_tid\<rparr>
                          else t) (refresh_tokens st)
                @ [\<lparr>t_id = new_tid, session_id = s_id s, token_hash = hash_token ev new_secret,
                    t_expires_at = now + refresh_token_lifetime ev,
                    t_revoked_at = None, replaced_by = None\<rparr>]"
    unfolding refresh_unfold f option.case l loaded.case
    by (simp split: if_splits) auto
  with f q show ?thesis by blast
qed

lemma tok_inv_authenticate:
  assumes "tok_inv st"
  shows "tok_inv (snd (authenticate_request ev now sid rd st))"
proof (cases "fst (load_session ev now sid st)")
  case Absent
  then show ?thesis using assms by (simp add: authenticate_unfold)
next
  case (Cached j)
  then show ?thesis using assms by (simp add: authenticate_unfold)
next
  case (Row s)
  show ?thesis
    unfolding authenticate_unfold Row loaded.case
    using assms by (simp add: tok_inv_revoke tok_inv_db_update)
qed

lemma tok_inv_refresh:
  assumes "tok_inv st"
  shows "tok_inv (snd (refresh_access_token ev now new_tid new_secret refresh_token rd st))"
proof (cases "fst (refresh_access_token ev now new_tid new_secret refresh_token rd st)")
  case (Inr res)
  let ?st' = "snd (refresh_access_token ev now new_tid new_secret refresh_token rd st)"
  have "refresh_access_token ev now new_tid new_secret refresh_token rd st = (Inr res, ?st')"
    using Inr by (simp add: prod_eq_iff)
  from refresh_Inr [OF this] obtain tok s where
    f: "find (\<lambda>t. token_hash t = hash_token ev refresh_token) (refresh_tokens st) = Some tok"
    and q: "query_session (session_id tok) st = Some s"
    and live: "t_revoked_at tok = None"
    and ss: "sessions ?st' = db_update (fst res) (sessions st)"
    and ts: "refresh_tokens ?st' =
                map (\<lambda>t. if t_id t = t_id tok
                          then t\<lparr>t_revoked_at := Some now, replaced_by := Some new_tid\<rparr>
                          else t) (refresh_tokens st)
                @ [\<lparr>t_id = new_tid, session_id = s_id s, token_hash = hash_token ev new_secret,
                    t_expires_at = now + refresh_token_lifetime ev,
                    t_revoked_at = None, replaced_by = None\<rparr>]"
    by blast
  let ?new = "\<lparr>t_id = new_tid, session_id = s_id s, token_hash = hash_token ev new_secret,
                t_expires_at = now + refresh_token_lifetime ev,
                t_revoked_at = None, replaced_by = None\<rparr>"
  have i: "s_id s = session_id tok" using q by (rule query_session_id)
  have l1: "\<forall>sid. length (live_tokens sid st) \<le> 1" using assms by (simp add: tok_inv_def)
  have fk: "session_id ` set (refresh_tokens st) \<subseteq> s_id ` set (sessions st)"
    using assms by (simp add: tok_inv_def)
  have n1: "session_id ?new = session_id tok" using i by simp
  have n2: "t_revoked_at ?new = None" by simp
  have a: "\<forall>sid. length (live_tokens sid ?st') \<le> 1"
    by (rule rotation_live(2) [OF l1 f live n1 n2 ts])
  have q': "query_session (session_id ?new) st = Some s" using q i by simp
  have b: "session_id ` set (refresh_tokens ?st') \<subseteq> s_id ` set (sessions ?st')"
    by (rule rotation_fk [OF fk q' ss ts])
  show ?thesis unfolding tok_inv_def using a b by (rule conjI)
next
  case (Inl e)
  show ?thesis
  proof (cases "find (\<lambda>t. token_hash t = hash_token ev refresh_token) (refresh_tokens st)")
    case None
    then show ?thesis using assms by (simp add: refresh_unfold)
  next
    case (Some tok)
    show ?thesis
    proof (cases "fst (load_session ev now (session_id tok) st)")
      case Absent
      then show ?thesis using assms Some by (simp add: refresh_unfold)
    next
      case (Cached j)
      then show ?thesis using assms Some by (simp add: refresh_unfold)
    next
      case (Row s)
      show ?thesis
        using Inl assms unfolding refresh_unfold Some option.case Row loaded.case
        by (simp add: tok_inv_revoke split: if_splits)
    qed
  qed
qed

lemma create_tokens:
  assumes inv: "tok_inv st"
      and c: "create_session ev now new_sid new_tid new_secret uid rd st = (Inr res, st')"
  shows "filter (\<lambda>t. session_id t = new_sid) (refresh_tokens st')
           = [\<lparr>t_id = new_tid, session_id = new_sid, token_hash = hash_token ev new_secret,
               t_expires_at = now + refresh_token_lifetime ev,
               t_revoked_at = None, replaced_by = None\<rparr>]"
    and "tok_inv st'"
proof -
  let ?new = "\<lparr>t_id = new_tid, session_id = new_sid, token_hash = hash_token ev new_secret,
               t_expires_at = now + refresh_token_lifetime ev,
               t_revoked_at = None, replaced_by = None\<rparr>"
  from create_Inr [OF c] have fresh: "new_sid \<notin> set (map s_id (sessions st))"
    and i: "s_id (fst res) = new_sid"
    and ss: "sessions st' = sessions st @ [fst res]"
    and ts: "refresh_tokens st' = refresh_tokens st @ [?new]"
    by simp_all
  have fk: "session_id ` set (refresh_tokens st) \<subseteq> s_id ` set (sessions st)"
    using inv by (simp add: tok_inv_def)
  have l1: "\<forall>sid. length (live_tokens sid st) \<le> 1" using inv by (simp add: tok_inv_def)
  have no: "session_id t \<noteq> new_sid" if "t \<in> set (refresh_tokens st)" for t
  proof
    assume "session_id t = new_sid"
    then have "new_sid \<in> session_id ` set (refresh_tokens st)" using that by (metis imageI)
    then have "new_sid \<in> s_id ` set (sessions st)" using fk by (rule rev_subsetD)
    then show False using fresh by simp
  qed
  have e: "filter (\<lambda>t. session_id t = new_sid) (refresh_tokens st) = []"
    unfolding filter_empty_conv using no by blast
  show "filter (\<lambda>t. session_id t = new_sid) (refresh_tokens st') = [?new]"
    unfolding ts filter_append e by simp
  have e2: "live_tokens new_sid st = []"
    unfolding live_tokens_def filter_empty_conv using no by blast
  have a: "\<forall>sid. length (live_tokens sid st') \<le> 1"
  proof
    fix sid
    have "live_tokens sid st'
            = live_tokens sid st @ (if new_sid = sid then [?new] else [])"
      unfolding live_tokens_def ts filter_append by simp
    then show "length (live_tokens sid st') \<le> 1"
      using l1 e2 by (cases "new_sid = sid") auto
  qed
  have "session_id ` set (refresh_tokens st') = insert new_sid (session_id ` set (refresh_tokens st))"
    unfolding ts by simp
  moreover have "s_id ` set (sessions st') = insert new_sid (s_id ` set (sessions st))"
    unfolding ss using i by simp
  ultimately have b: "session_id ` set (refresh_tokens st') \<subseteq> s_id ` set (sessions st')"
    using fk by (simp only:) (rule insert_mono)
  show "tok_inv st'" unfolding tok_inv_def using a b by (rule conjI)
qed

lemma tok_inv_create:
  assumes "tok_inv st"
  shows "tok_inv (snd (create_session ev now new_sid new_tid new_secret uid rd st))"
proof (cases "fst (create_session ev now new_sid new_tid new_secret uid rd st)")
  case (Inr res)
  then have "create_session ev now new_sid new_tid new_secret uid rd st
               = (Inr res, snd (create_session ev now new_sid new_tid new_secret uid rd st))"
    by (simp add: prod_eq_iff)
  then show ?thesis by (rule create_tokens(2) [OF assms])
next
  case (Inl e)
  then have "snd (create_session ev now new_sid new_tid new_secret uid rd st) = st"
    using create_effect [of ev now new_sid new_tid new_secret uid rd st] by auto
  then show ?thesis using assms by simp
qed

lemma tok_inv_step: "tok_inv st \<Longrightarrow> tok_inv (step ev op st)"
proof (cases op)
  case (Create now new_sid new_tid new_secret uid rd)
  assume "tok_inv st"
  then show ?thesis unfolding Create step.simps by (rule tok_inv_create)
next
  case (Authenticate now sid rd)
  assume "tok_inv st"
  then show ?thesis unfolding Authenticate step.simps by (rule tok_inv_authenticate)
next
  case (Refresh now new_tid new_secret refresh_token rd)
  assume "tok_inv st"
  then show ?thesis unfolding Refresh step.simps by (rule tok_inv_refresh)
next
  case (Revoke now sid)
  assume a: "tok_inv st"
  have l: "load_session ev now sid st = (fst (load_session ev now sid st), st)"
    by (rule load_session_snd)
  show ?thesis
    unfolding Revoke step.simps
    by (subst l, cases "fst (load_session ev now sid st)") (simp_all add: a tok_inv_revoke)
next
  case (RevokeAll now uid)
  assume "tok_inv st"
  then show ?thesis
    unfolding RevokeAll step.simps revoke_all_sessions_def Let_def
    by (simp add: tok_inv_fold_revoke)
next
  case (Load now sid)
  assume a: "tok_inv st"
  have "snd (load_session ev now sid st) = st"
    using load_session_snd [of ev now sid st] by (metis snd_conv)
  then show ?thesis unfolding Load step.simps using a by simp
qed

lemma tok_inv_run: "tok_inv st \<Longrightarrow> tok_inv (run ev ops st)"
  unfolding run_def by (induction ops arbitrary: st) (simp_all add: tok_inv_step)

text \<open>
  Claim C7. In every state reached from the empty store by a sequence of calls of the
  operations, a session owns at most one unrevoked refresh token, hence at most one that is
  unrevoked and unexpired at any instant \<open>at\<close>. A successful \<open>create_session\<close> leaves the
  new session with exactly one token; a successful \<open>refresh_access_token\<close> stores the
  presented token revoked, with its forward pointer, in the same commit that adds the
  successor, which is then the session's only unrevoked token; \<open>revoke_session\<close> leaves the
  session without any unrevoked token.
\<close>

theorem single_live_token:
  assumes "st = run ev ops (empty_state r)"
  shows "length (live_tokens sid st) \<le> 1
       \<and> length (usable_tokens at sid st) \<le> 1
       \<and> (create_session ev now new_sid new_tid new_secret uid rd st = (Inr res, st') \<longrightarrow>
            filter (\<lambda>t. session_id t = new_sid) (refresh_tokens st')
              = [\<lparr>t_id = new_tid, session_id = new_sid, token_hash = hash_token ev new_secret,
                  t_expires_at = now + refresh_token_lifetime ev,
                  t_revoked_at = None, replaced_by = None\<rparr>])
       \<and> (refresh_access_token ev now new_tid new_secret refresh_token rd st = (Inr res, st') \<longrightarrow>
            live_tokens (s_id (fst res)) st'
              = [\<lparr>t_id = new_tid, session_id = s_id (fst res),
                  token_hash = hash_token ev new_secret,
                  t_expires_at = now + refresh_token_lifetime ev,
                  t_revoked_at = None, replaced_by = None\<rparr>]
            \<and> (\<exists>tok. find (\<lambda>t. token_hash t = hash_token ev refresh_token) (refresh_tokens st)
                         = Some tok
                  \<and> session_id tok = s_id (fst res) \<and> t_revoked_at tok = None
                  \<and> find (\<lambda>t. token_hash t = hash_token ev refresh_token) (refresh_tokens st')
                         = Some (tok\<lparr>t_revoked_at := Some now, replaced_by := Some new_tid\<rparr>)))
       \<and> live_tokens (s_id s) (revoke_session now s st) = []"
proof (intro conjI impI)
  have inv: "tok_inv st" unfolding assms by (rule tok_inv_run [OF tok_inv_empty])
  then have l1: "\<forall>sid. length (live_tokens sid st) \<le> 1" by (simp add: tok_inv_def)
  show a: "length (live_tokens sid st) \<le> 1" using l1 by simp
  show "length (usable_tokens at sid st) \<le> 1"
    using usable_le_live [of at sid st] a by (rule order_trans)
  show "live_tokens (s_id s) (revoke_session now s st) = []" by (rule live_revoke_own)
  {
    assume c: "create_session ev now new_sid new_tid new_secret uid rd st = (Inr res, st')"
    show "filter (\<lambda>t. session_id t = new_sid) (refresh_tokens st')
              = [\<lparr>t_id = new_tid, session_id = new_sid, token_hash = hash_token ev new_secret,
                  t_expires_at = now + refresh_token_lifetime ev,
                  t_revoked_at = None, replaced_by = None\<rparr>]"
      by (rule create_tokens(1) [OF inv c])
  }
  assume c: "refresh_access_token ev now new_tid new_secret refresh_token rd st = (Inr res, st')"
  from refresh_Inr [OF c] obtain tok s0 where
    f: "find (\<lambda>t. token_hash t = hash_token ev refresh_token) (refresh_tokens st) = Some tok"
    and q: "query_session (session_id tok) st = Some s0"
    and live: "t_revoked_at tok = None"
    and r: "res = (update_session_context rd
                     (s0\<lparr>last_seen_at := now,
                         risk_score := risk_score s0 + calculate_risk s0 rd\<rparr>), new_secret)"
    and ts: "refresh_tokens st' =
                map (\<lambda>t. if t_id t = t_id tok
                          then t\<lparr>t_revoked_at := Some now, replaced_by := Some new_tid\<rparr>
                          else t) (refresh_tokens st)
                @ [\<lparr>t_id = new_tid, session_id = s_id s0, token_hash = hash_token ev new_secret,
                    t_expires_at = now + refresh_token_lifetime ev,
                    t_revoked_at = None, replaced_by = None\<rparr>]"
    by blast
  let ?new = "\<lparr>t_id = new_tid, session_id = s_id s0, token_hash = hash_token ev new_secret,
                t_expires_at = now + refresh_token_lifetime ev,
                t_revoked_at = None, replaced_by = None\<rparr>"
  let ?g = "\<lambda>t. if t_id t = t_id tok
                 then t\<lparr>t_revoked_at := Some now, replaced_by := Some new_tid\<rparr> else t"
  have i: "s_id s0 = session_id tok" using q by (rule query_session_id)
  have ri: "s_id (fst res) = s_id s0" by (simp add: r update_session_context_fields)
  have n1: "session_id ?new = session_id tok" using i by simp
  have n2: "t_revoked_at ?new = None" by simp
  have "live_tokens (session_id tok) st' = [?new]"
    by (rule rotation_live(1) [OF l1 f live n1 n2 ts])
  then show "live_tokens (s_id (fst res)) st'
              = [\<lparr>t_id = new_tid, session_id = s_id (fst res),
                  token_hash = hash_token ev new_secret,
                  t_expires_at = now + refresh_token_lifetime ev,
                  t_revoked_at = None, replaced_by = None\<rparr>]"
    by (simp add: ri i)
  have "find (\<lambda>t. token_hash t = hash_token ev refresh_token) (map ?g (refresh_tokens st))
          = Some (?g tok)"
    using f by (simp add: find_hash_map)
  then have "find (\<lambda>t. token_hash t = hash_token ev refresh_token) (refresh_tokens st')
               = Some (tok\<lparr>t_revoked_at := Some now, replaced_by := Some new_tid\<rparr>)"
    unfolding ts find_app by simp
  then show "\<exists>tok. find (\<lambda>t. token_hash t = hash_token ev refresh_token) (refresh_tokens st)
                         = Some tok
                  \<and> session_id tok = s_id (fst res) \<and> t_revoked_at tok = None
                  \<and> find (\<lambda>t. token_hash t = hash_token ev refresh_token) (refresh_tokens st')
                         = Some (tok\<lparr>t_revoked_at := Some now, replaced_by := Some new_tid\<rparr>)"
    using f live ri i by auto
qed

theorem single_live_token_witness:
  "ex_state = run ex_env [Create 0 ''s1'' ''t1'' ''r1'' 1 ex_rd] (empty_state Map.empty)
   \<and> live_tokens ''s1'' ex_state = [ex_token]
   \<and> live_tokens ''s1'' ex_state_rotated
       = [\<lparr>t_id = ''t2'', session_id = ''s1'', token_hash = ''#r2'', t_expires_at = 2592010,
           t_revoked_at = None, replaced_by = None\<rparr>]
   \<and> live_tokens ''s1'' (revoke_session 10 ex_session ex_state) = []"
proof -
  have e: "ex_state = run ex_env [Create 0 ''s1'' ''t1'' ''r1'' 1 ex_rd] (empty_state Map.empty)"
    by (simp add: run_def ex_create)
  have l: "live_tokens ''s1'' ex_state = [ex_token]"
    by (simp add: live_tokens_def ex_state_def ex_token_def)
  note t = single_live_token [OF e, where sid = "''s1''" and now = 10 and new_tid = "''t2''"
        and new_secret = "''r2''" and refresh_token = "''r1''" and rd = ex_rd
        and res = "(ex_session\<lparr>last_seen_at := 10\<rparr>, ''r2'')" and st' = ex_state_rotated
        and s = ex_session and at = 10]
  have r: "refresh_access_token ex_env 10 ''t2'' ''r2'' ''r1'' ex_rd ex_state
             = (Inr (ex_session\<lparr>last_seen_at := 10\<rparr>, ''r2''), ex_state_rotated)"
    by (rule ex_rotation)
  from t r have "live_tokens (s_id (fst (ex_session\<lparr>last_seen_at := 10\<rparr>, ''r2''))) ex_state_rotated
              = [\<lparr>t_id = ''t2'',
                  session_id = s_id (fst (ex_session\<lparr>last_seen_at := 10\<rparr>, ''r2'')),
                  token_hash = hash_token ex_env ''r2'',
                  t_expires_at = 10 + refresh_token_lifetime ex_env,
                  t_revoked_at = None, replaced_by = None\<rparr>]"
    by blast
  then have a: "live_tokens ''s1'' ex_state_rotated
       = [\<lparr>t_id = ''t2'', session_id = ''s1'', token_hash = ''#r2'', t_expires_at = 2592010,
           t_revoked_at = None, replaced_by = None\<rparr>]"
    by (simp add: ex_session_fields ex_env_def)
  from t have "live_tokens (s_id ex_session) (revoke_session 10 ex_session ex_state) = []"
    by blast
  then have b: "live_tokens ''s1'' (revoke_session 10 ex_session ex_state) = []"
    by (simp add: ex_session_fields)
  show ?thesis using e l a b by (intro conjI)
qed

subsection \<open>Two refresh calls on one token\<close>

text \<open>Read and write phase in sequence are the function itself.\<close>

lemma refresh_split:
  "refresh_access_token ev now new_tid new_secret refresh_token rd st =
     (case refresh_read ev now refresh_token st of
        (r, st1) \<Rightarrow> refresh_finish ev now new_tid new_secret rd r st1)"
  by (simp add: refresh_access_token_def refresh_read_def refresh_finish_def refresh_write_def
      split: option.splits prod.splits loaded.splits)

lemma ex_read: "refresh_read ex_env 10 ''r1'' ex_state = (Inr (ex_token, Row ex_session), ex_state)"
  by (simp add: refresh_read_def ex_find ex_token_fields ex_load)

lemma ex_write_a:
  "refresh_write ex_env 10 ''t2'' ''r2'' ex_rd ex_token (Row ex_session) ex_state
     = (Inr (ex_session\<lparr>last_seen_at := 10\<rparr>, ''r2''), ex_state_rotated)"
  using ex_rotation
  by (simp add: refresh_split ex_read refresh_finish_def)

lemma ex_write_b:
  "refresh_write ex_env 10 ''t3'' ''r3'' ex_rd ex_token (Row ex_session) ex_state_rotated
     = (Inr (ex_session\<lparr>last_seen_at := 10\<rparr>, ''r3''), ex_state_raced)"
proof -
  have ins: "token_insertable
               \<lparr>t_id = ''t3'', session_id = ''s1'', token_hash = hash_token ex_env ''r3'',
                t_expires_at = 10 + refresh_token_lifetime ex_env, t_revoked_at = None,
                replaced_by = None\<rparr> ex_state_rotated"
    by (simp add: token_insertable_def ex_state_rotated_def ex_token_def ex_env_def)
  show ?thesis
    by (simp add: refresh_write_def ex_token_fields ex_session_fields ex_risk_same
          REAUTH_RISK_def ins cache_session_noop Let_def)
       (simp add: ex_state_rotated_def ex_state_raced_def db_update_def ex_session_def
          ex_token_def update_session_context_def get_def ex_rd_def get_geo_info_def ex_env_def)
qed

text \<open>
  Claim C9 asks that of two concurrent refresh calls presenting the same token at most one
  rotates, the other finding the token revoked and tearing the session down. The code has
  no conditional update: both calls read the token unrevoked, and each then commits its
  own rotation. Evaluated on the schedule read, read, write, write from the store after the
  login, both calls succeed, the session is left unrevoked with two unrevoked tokens
  \<open>t2\<close> and \<open>t3\<close>, the first token's forward pointer is overwritten, and no
  \<open>token_reuse_detected\<close> event is written. (Run one after the other, the second call is
  the replay of \<open>ex_replay\<close> and is answered with reuse detection.)
\<close>

theorem refresh_race_rotates_twice:
  "refresh_race ex_env ''r1'' 10 ''t2'' ''r2'' ex_rd 10 ''t3'' ''r3'' ex_rd ex_state
     = (Inr (ex_session\<lparr>last_seen_at := 10\<rparr>, ''r2''),
        Inr (ex_session\<lparr>last_seen_at := 10\<rparr>, ''r3''),
        ex_state_raced)
   \<and> live_tokens ''s1'' ex_state_raced
       = [\<lparr>t_id = ''t2'', session_id = ''s1'', token_hash = ''#r2'', t_expires_at = 2592010,
           t_revoked_at = None, replaced_by = None\<rparr>,
          \<lparr>t_id = ''t3'', session_id = ''s1'', token_hash = ''#r3'', t_expires_at = 2592010,
           t_revoked_at = None, replaced_by = None\<rparr>]
   \<and> query_session ''s1'' ex_state_raced = Some (ex_session\<lparr>last_seen_at := 10\<rparr>)
   \<and> revoked_at (ex_session\<lparr>last_seen_at := 10\<rparr>) = None
   \<and> security_events ex_state_raced = security_events ex_state"
proof -
  have r: "refresh_race ex_env ''r1'' 10 ''t2'' ''r2'' ex_rd 10 ''t3'' ''r3'' ex_rd ex_state
     = (Inr (ex_session\<lparr>last_seen_at := 10\<rparr>, ''r2''),
        Inr (ex_session\<lparr>last_seen_at := 10\<rparr>, ''r3''),
        ex_state_raced)"
    by (simp add: refresh_race_def ex_read refresh_finish_def ex_write_a ex_write_b)
  have l: "live_tokens ''s1'' ex_state_raced
       = [\<lparr>t_id = ''t2'', session_id = ''s1'', token_hash = ''#r2'', t_expires_at = 2592010,
           t_revoked_at = None, replaced_by = None\<rparr>,
          \<lparr>t_id = ''t3'', session_id = ''s1'', token_hash = ''#r3'', t_expires_at = 2592010,
           t_revoked_at = None, replaced_by = None\<rparr>]"
    by (simp add: live_tokens_def ex_state_raced_def ex_token_def)
  have q: "query_session ''s1'' ex_state_raced = Some (ex_session\<lparr>last_seen_at := 10\<rparr>)"
    by (simp add: query_session_def ex_state_raced_def ex_session_def)
  show ?thesis
    using r l q by (simp add: ex_session_fields ex_state_raced_def)
qed

end
